theory Spec2Isabelle
  imports Main
begin

section \<open>Values that cross the HTTP and spreadsheet boundaries\<close>

text \<open>
  A request body is a JSON value. Looking a key up in an object gives \<open>None\<close> where
  JavaScript gives \<open>undefined\<close>. Numbers are integer valued: the validation only looks
  at the type of a value, never at the number itself.
\<close>

datatype json =
    JNull
  | JBool bool
  | JNum int
  | JStr string
  | JArr "json list"
  | JObj "(string \<times> json) list"

text \<open>
  A cell of a parsed work sheet (\<open>XLSX.utils.sheet_to_json\<close>) holds a string, a number
  or a boolean; an empty cell leaves its key out of the row object. Numeric cells are
  integer valued, in the range where \<open>String(n)\<close> prints plain decimal digits.
\<close>

datatype cell = CStr string | CNum int | CBool bool

type_synonym row = "(string \<times> cell) list"

text \<open>\<open>row[key]\<close>: \<open>None\<close> is \<open>undefined\<close>.\<close>

definition lookup :: "row \<Rightarrow> string \<Rightarrow> cell option" where
  "lookup r k = map_of r k"

text \<open>JavaScript truthiness of \<open>row[key]\<close>: \<open>undefined\<close>, \<open>""\<close>, \<open>0\<close> and \<open>false\<close> are falsy.\<close>

fun truthy :: "cell option \<Rightarrow> bool" where
  "truthy None = False"
| "truthy (Some (CStr s)) = (s \<noteq> [])"
| "truthy (Some (CNum n)) = (n \<noteq> 0)"
| "truthy (Some (CBool b)) = b"

text \<open>The operator \<open>a || b\<close>.\<close>

definition jor :: "cell option \<Rightarrow> cell option \<Rightarrow> cell option" where
  "jor a b = (if truthy a then a else b)"

subsection \<open>Numbers as text\<close>

definition digit_char :: "nat \<Rightarrow> char" where
  "digit_char d = ''0123456789'' ! d"

function string_of_nat :: "nat \<Rightarrow> string" where
  "string_of_nat n =
     (if n < 10 then [digit_char n] else string_of_nat (n div 10) @ [digit_char (n mod 10)])"
  by pat_completeness auto
termination
  by (relation "measure (\<lambda>n. n)") auto

declare string_of_nat.simps [simp del]

definition string_of_int :: "int \<Rightarrow> string" where
  "string_of_int i =
     (if i < 0 then CHR ''-'' # string_of_nat (nat (- i)) else string_of_nat (nat i))"

text \<open>\<open>String(v)\<close> for a cell value, also what a template literal prints.\<close>

fun String :: "cell \<Rightarrow> string" where
  "String (CStr s) = s"
| "String (CNum n) = string_of_int n"
| "String (CBool b) = (if b then ''true'' else ''false'')"

section \<open>The asset schema (shared/schema.ts)\<close>

text \<open>
  \<open>InsertAsset\<close> is the object type the insert schema yields, \<open>Asset\<close> the selected
  row: the same columns and the serial \<open>id\<close>. A nullable column is an option.
\<close>

record InsertAsset =
  name :: string
  type :: string
  tag :: string
  serialNumber :: "string option"
  cost :: string
  acquisitionDate :: "string option"

record Asset = InsertAsset +
  asset_id :: int

text \<open>One zod issue: the path of the offending key and the message.\<close>

type_synonym issue = "string list \<times> string"

text \<open>The name zod prints for the type of a received value.\<close>

fun received :: "json \<Rightarrow> string" where
  "received JNull = ''null''"
| "received (JBool b) = ''boolean''"
| "received (JNum n) = ''number''"
| "received (JStr s) = ''string''"
| "received (JArr xs) = ''array''"
| "received (JObj fs) = ''object''"

text \<open>
  \<open>createInsertSchema\<close> turns a \<open>text\<close>, \<open>decimal\<close> or \<open>date\<close> column into
  \<open>z.string()\<close>: required when the column is \<open>notNull\<close>, otherwise optional and
  nullable. No column carries a length or a format check.
\<close>

definition zString :: "string \<Rightarrow> json option \<Rightarrow> issue list" where
  "zString key v =
     (case v of
        None \<Rightarrow> [([key], ''Required'')]
      | Some (JStr s) \<Rightarrow> []
      | Some j \<Rightarrow> [([key], ''Expected string, received '' @ received j)])"

definition zStringNullish :: "string \<Rightarrow> json option \<Rightarrow> issue list" where
  "zStringNullish key v =
     (case v of
        None \<Rightarrow> []
      | Some JNull \<Rightarrow> []
      | Some (JStr s) \<Rightarrow> []
      | Some j \<Rightarrow> [([key], ''Expected string, received '' @ received j)])"

text \<open>The parsed value of a key that passed its check.\<close>

fun str_of :: "json option \<Rightarrow> string" where
  "str_of (Some (JStr s)) = s"
| "str_of _ = []"

fun nullable_of :: "json option \<Rightarrow> string option" where
  "nullable_of (Some (JStr s)) = Some s"
| "nullable_of _ = None"

text \<open>
  \<open>insertAssetSchema.parse\<close>: every key is checked, in the order of the columns, and
  all issues are reported; unknown keys are dropped.
\<close>

definition insertAssetSchema :: "json \<Rightarrow> issue list + InsertAsset" where
  "insertAssetSchema body =
     (case body of
        JObj fs \<Rightarrow>
          (let issues =
                 zString ''name'' (map_of fs ''name'')
               @ zString ''type'' (map_of fs ''type'')
               @ zString ''tag'' (map_of fs ''tag'')
               @ zStringNullish ''serialNumber'' (map_of fs ''serialNumber'')
               @ zString ''cost'' (map_of fs ''cost'')
               @ zStringNullish ''acquisitionDate'' (map_of fs ''acquisitionDate'')
           in if issues = []
              then Inr \<lparr> name = str_of (map_of fs ''name''),
                         type = str_of (map_of fs ''type''),
                         tag = str_of (map_of fs ''tag''),
                         serialNumber = nullable_of (map_of fs ''serialNumber''),
                         cost = str_of (map_of fs ''cost''),
                         acquisitionDate = nullable_of (map_of fs ''acquisitionDate'') \<rparr>
              else Inl issues)
      | j \<Rightarrow> Inl [([], ''Expected object, received '' @ received j)])"

text \<open>
  \<open>insertAssetSchema.partial()\<close>: the same checks with every key optional. An absent
  key is \<open>None\<close>; a nullable column that is present holds \<open>Some None\<close> for \<open>null\<close>.
\<close>

record PartialAsset =
  name_opt :: "string option"
  type_opt :: "string option"
  tag_opt :: "string option"
  serialNumber_opt :: "string option option"
  cost_opt :: "string option"
  acquisitionDate_opt :: "string option option"

definition zStringOptional :: "string \<Rightarrow> json option \<Rightarrow> issue list" where
  "zStringOptional key v =
     (case v of
        None \<Rightarrow> []
      | Some (JStr s) \<Rightarrow> []
      | Some j \<Rightarrow> [([key], ''Expected string, received '' @ received j)])"

fun optional_of :: "json option \<Rightarrow> string option" where
  "optional_of (Some (JStr s)) = Some s"
| "optional_of _ = None"

fun nullish_of :: "json option \<Rightarrow> string option option" where
  "nullish_of None = None"
| "nullish_of (Some (JStr s)) = Some (Some s)"
| "nullish_of (Some _) = Some None"

definition partialAssetSchema :: "json \<Rightarrow> issue list + PartialAsset" where
  "partialAssetSchema body =
     (case body of
        JObj fs \<Rightarrow>
          (let issues =
                 zStringOptional ''name'' (map_of fs ''name'')
               @ zStringOptional ''type'' (map_of fs ''type'')
               @ zStringOptional ''tag'' (map_of fs ''tag'')
               @ zStringNullish ''serialNumber'' (map_of fs ''serialNumber'')
               @ zStringOptional ''cost'' (map_of fs ''cost'')
               @ zStringNullish ''acquisitionDate'' (map_of fs ''acquisitionDate'')
           in if issues = []
              then Inr \<lparr> name_opt = optional_of (map_of fs ''name''),
                         type_opt = optional_of (map_of fs ''type''),
                         tag_opt = optional_of (map_of fs ''tag''),
                         serialNumber_opt = nullish_of (map_of fs ''serialNumber''),
                         cost_opt = optional_of (map_of fs ''cost''),
                         acquisitionDate_opt = nullish_of (map_of fs ''acquisitionDate'') \<rparr>
              else Inl issues)
      | j \<Rightarrow> Inl [([], ''Expected object, received '' @ received j)])"

section \<open>The store (server/storage.ts)\<close>

text \<open>
  The table \<open>assets\<close> in the order a scan returns its rows, and the sequence behind the
  serial \<open>id\<close>. Ids are integers; the column is a 32-bit integer, and the table is
  taken to hold ids of that range and the sequence not to have reached its end.
\<close>

record db =
  assets :: "Asset list"
  next_id :: int

text \<open>
  The database engine is outside the repository. What it does to a value it is sent
  is a parameter: whether it takes a text (it refuses one that holds a NUL character,
  and stores any text it takes, which is well-formed Unicode, unchanged), what it
  makes of the text of a \<open>decimal(10,2)\<close> value, and the stored form of the text of a
  \<open>date\<close> value, \<open>None\<close> when the engine refuses the text.

  The values of a statement are read when the statement is bound, before it runs: a
  text the engine does not take, a cost that is not a number (\<open>Malformed\<close>), a date that
  is not a date or an id outside the column's range refuse the statement whatever the
  table holds. The precision of \<open>decimal(10,2)\<close> is enforced when the statement runs, on
  the row being written (\<open>OutOfRange\<close>).
\<close>

datatype decimal_result = Malformed | OutOfRange | Stored string

record engine =
  text_ok :: "string \<Rightarrow> bool"
  decimal_in :: "string \<Rightarrow> decimal_result"
  date_in :: "string \<Rightarrow> string option"

text \<open>An id sent to the engine must fit the column.\<close>

definition int4_ok :: "int \<Rightarrow> bool" where
  "int4_ok i \<longleftrightarrow> - 2147483648 \<le> i \<and> i \<le> 2147483647"

datatype db_error = InvalidInput | UniqueViolation | NoValuesToSet

definition getAllAssets :: "db \<Rightarrow> Asset list" where
  "getAllAssets d = assets d"

definition getAsset :: "db \<Rightarrow> int \<Rightarrow> db_error + Asset option" where
  "getAsset d i =
     (if int4_ok i then Inr (find (\<lambda>a. asset_id a = i) (assets d)) else Inl InvalidInput)"

definition getAssetByTag :: "engine \<Rightarrow> db \<Rightarrow> string \<Rightarrow> db_error + Asset option" where
  "getAssetByTag E d t =
     (if text_ok E t then Inr (find (\<lambda>a. tag a = t) (assets d)) else Inl InvalidInput)"

definition to_row :: "int \<Rightarrow> InsertAsset \<Rightarrow> Asset" where
  "to_row i v = \<lparr> name = name v, type = type v, tag = tag v,
                  serialNumber = serialNumber v, cost = cost v,
                  acquisitionDate = acquisitionDate v, asset_id = i \<rparr>"

text \<open>Whether the engine binds the values of one row.\<close>

definition texts_ok :: "engine \<Rightarrow> InsertAsset \<Rightarrow> bool" where
  "texts_ok E v \<longleftrightarrow>
     text_ok E (name v) \<and> text_ok E (type v) \<and> text_ok E (tag v)
     \<and> (case serialNumber v of None \<Rightarrow> True | Some s \<Rightarrow> text_ok E s)"

definition bind_ok :: "engine \<Rightarrow> InsertAsset \<Rightarrow> bool" where
  "bind_ok E v \<longleftrightarrow>
     texts_ok E v \<and> decimal_in E (cost v) \<noteq> Malformed
     \<and> (case acquisitionDate v of None \<Rightarrow> True | Some s \<Rightarrow> date_in E s \<noteq> None)"

text \<open>The values of one row as the column types store them, \<open>None\<close> when a column
  refuses its value.\<close>

definition coerce_values :: "engine \<Rightarrow> InsertAsset \<Rightarrow> InsertAsset option" where
  "coerce_values E v =
     (if \<not> texts_ok E v then None
      else (case decimal_in E (cost v) of
              Malformed \<Rightarrow> None
            | OutOfRange \<Rightarrow> None
            | Stored c \<Rightarrow>
                (case acquisitionDate v of
                   None \<Rightarrow> Some (v\<lparr>cost := c\<rparr>)
                 | Some s \<Rightarrow>
                     (case date_in E s of
                        None \<Rightarrow> None
                      | Some s' \<Rightarrow> Some (v\<lparr>cost := c, acquisitionDate := Some s'\<rparr>)))))"

text \<open>
  One \<open>INSERT\<close> statement that the engine has bound: the rows are taken in order, each
  draws the next value of the sequence, is brought to the form of its columns and is
  written; \<open>tag\<close> is \<open>unique()\<close>, and a row whose tag is in the table, or was inserted
  earlier by the same statement, aborts the statement, as does a cost out of range.
  The result is the sequence afterwards (values drawn are not given back) and the
  rows created, or the error that aborted the statement.
\<close>

fun insert_values ::
  "engine \<Rightarrow> Asset list \<Rightarrow> int \<Rightarrow> InsertAsset list \<Rightarrow> int \<times> (db_error + Asset list)" where
  "insert_values E tbl n [] = (n, Inr [])"
| "insert_values E tbl n (v # vs) =
     (case coerce_values E v of
        None \<Rightarrow> (n + 1, Inl InvalidInput)
      | Some r \<Rightarrow>
          (if tag r \<in> set (map tag tbl) then (n + 1, Inl UniqueViolation)
           else (case insert_values E (tbl @ [to_row n r]) (n + 1) vs of
                   (n', Inl e) \<Rightarrow> (n', Inl e)
                 | (n', Inr cs) \<Rightarrow> (n', Inr (to_row n r # cs)))))"

definition db_insert :: "engine \<Rightarrow> db \<Rightarrow> InsertAsset list \<Rightarrow> db \<times> (db_error + Asset list)" where
  "db_insert E d vs =
     (if \<not> list_all (bind_ok E) vs then (d, Inl InvalidInput)
      else (case insert_values E (assets d) (next_id d) vs of
              (n', Inl e) \<Rightarrow> (d\<lparr>next_id := n'\<rparr>, Inl e)
            | (n', Inr cs) \<Rightarrow> (\<lparr>assets = assets d @ cs, next_id = n'\<rparr>, Inr cs)))"

text \<open>\<open>const [asset] = await db.insert(assets).values(insertAsset).returning()\<close>\<close>

definition createAsset :: "engine \<Rightarrow> db \<Rightarrow> InsertAsset \<Rightarrow> db \<times> (db_error + Asset option)" where
  "createAsset E d v =
     (case db_insert E d [v] of
        (d', Inl e) \<Rightarrow> (d', Inl e)
      | (d', Inr cs) \<Rightarrow> (d', Inr (case cs of [] \<Rightarrow> None | a # _ \<Rightarrow> Some a)))"

definition createManyAssets :: "engine \<Rightarrow> db \<Rightarrow> InsertAsset list \<Rightarrow> db \<times> (db_error + Asset list)" where
  "createManyAssets E d vs = (if length vs = 0 then (d, Inr []) else db_insert E d vs)"

text \<open>
  \<open>db.update(assets).set(updateData).where(eq(assets.id, id)).returning()\<close>. Only the
  keys present in \<open>updateData\<close> are set; with no key present there is no \<open>SET\<close> clause
  and the call throws. A statement that finds no row writes nothing, so that nothing
  is out of range. The engine writes the updated row as a new row version: a scan
  returns it after the rows that were not touched (no space of the table is taken to
  have been reclaimed).
\<close>

definition no_values :: "PartialAsset \<Rightarrow> bool" where
  "no_values p \<longleftrightarrow>
     name_opt p = None \<and> type_opt p = None \<and> tag_opt p = None \<and> serialNumber_opt p = None
     \<and> cost_opt p = None \<and> acquisitionDate_opt p = None"

definition patch_texts_ok :: "engine \<Rightarrow> PartialAsset \<Rightarrow> bool" where
  "patch_texts_ok E p \<longleftrightarrow>
     (case name_opt p of None \<Rightarrow> True | Some s \<Rightarrow> text_ok E s)
     \<and> (case type_opt p of None \<Rightarrow> True | Some s \<Rightarrow> text_ok E s)
     \<and> (case tag_opt p of None \<Rightarrow> True | Some s \<Rightarrow> text_ok E s)
     \<and> (case serialNumber_opt p of Some (Some s) \<Rightarrow> text_ok E s | _ \<Rightarrow> True)"

definition patch_bind_ok :: "engine \<Rightarrow> PartialAsset \<Rightarrow> bool" where
  "patch_bind_ok E p \<longleftrightarrow>
     patch_texts_ok E p
     \<and> (case cost_opt p of None \<Rightarrow> True | Some c \<Rightarrow> decimal_in E c \<noteq> Malformed)
     \<and> (case acquisitionDate_opt p of Some (Some s) \<Rightarrow> date_in E s \<noteq> None | _ \<Rightarrow> True)"

text \<open>The values of a patch as the column types store them.\<close>

definition coerce_patch :: "engine \<Rightarrow> PartialAsset \<Rightarrow> PartialAsset option" where
  "coerce_patch E p =
     (if \<not> patch_texts_ok E p then None
      else (case (case cost_opt p of None \<Rightarrow> Some None
                  | Some c \<Rightarrow>
                      (case decimal_in E c of
                         Malformed \<Rightarrow> None | OutOfRange \<Rightarrow> None
                       | Stored c' \<Rightarrow> Some (Some c'))) of
              None \<Rightarrow> None
            | Some co \<Rightarrow>
                (case (case acquisitionDate_opt p of
                         Some (Some s) \<Rightarrow>
                           (case date_in E s of None \<Rightarrow> None | Some s' \<Rightarrow> Some (Some (Some s')))
                       | other \<Rightarrow> Some other) of
                   None \<Rightarrow> None
                 | Some ad \<Rightarrow> Some (p\<lparr>cost_opt := co, acquisitionDate_opt := ad\<rparr>))))"

definition apply_patch :: "PartialAsset \<Rightarrow> Asset \<Rightarrow> Asset" where
  "apply_patch p a =
     a\<lparr> name := (case name_opt p of None \<Rightarrow> name a | Some s \<Rightarrow> s),
        type := (case type_opt p of None \<Rightarrow> type a | Some s \<Rightarrow> s),
        tag := (case tag_opt p of None \<Rightarrow> tag a | Some s \<Rightarrow> s),
        serialNumber := (case serialNumber_opt p of None \<Rightarrow> serialNumber a | Some s \<Rightarrow> s),
        cost := (case cost_opt p of None \<Rightarrow> cost a | Some s \<Rightarrow> s),
        acquisitionDate :=
          (case acquisitionDate_opt p of None \<Rightarrow> acquisitionDate a | Some s \<Rightarrow> s) \<rparr>"

definition updateAsset :: "engine \<Rightarrow> db \<Rightarrow> int \<Rightarrow> PartialAsset \<Rightarrow> db \<times> (db_error + Asset option)" where
  "updateAsset E d i p =
     (if no_values p then (d, Inl NoValuesToSet)
      else if \<not> int4_ok i \<or> \<not> patch_bind_ok E p then (d, Inl InvalidInput)
      else (case find (\<lambda>a. asset_id a = i) (assets d) of
              None \<Rightarrow> (d, Inr None)
            | Some a \<Rightarrow>
                (case coerce_patch E p of
                   None \<Rightarrow> (d, Inl InvalidInput)
                 | Some q \<Rightarrow>
                     (if (case tag_opt q of
                            None \<Rightarrow> False
                          | Some t \<Rightarrow> (\<exists>b \<in> set (assets d). asset_id b \<noteq> i \<and> tag b = t))
                      then (d, Inl UniqueViolation)
                      else (d\<lparr>assets := filter (\<lambda>b. asset_id b \<noteq> i) (assets d)
                                        @ map (apply_patch q)
                                            (filter (\<lambda>b. asset_id b = i) (assets d))\<rparr>,
                            Inr (Some (apply_patch q a)))))))"

definition deleteAsset :: "db \<Rightarrow> int \<Rightarrow> db \<times> (db_error + bool)" where
  "deleteAsset d i =
     (if \<not> int4_ok i then (d, Inl InvalidInput)
      else (d\<lparr>assets := filter (\<lambda>a. asset_id a \<noteq> i) (assets d)\<rparr>,
            Inr (length (filter (\<lambda>a. asset_id a = i) (assets d)) > 0)))"

section \<open>The routes (server/routes.ts)\<close>

datatype body =
    Message string
  | ValidationError string "issue list"
  | AssetJson "Asset option"
  | AssetsJson "Asset list"
  | ImportFailed string "string list"
  | ImportSummary string nat "string list option" "Asset list"

datatype response = Response (status: nat) (payload: body)

text \<open>
  Every handler runs in a \<open>try\<close> whose \<open>catch\<close> answers 500: an error of the store
  is a 500 with the message of the route.

  \<open>GET /api/assets\<close> and \<open>GET /api/assets/:id\<close>. The id argument of a route is the value
  of \<open>parseInt(req.params.id)\<close>, \<open>None\<close> for \<open>NaN\<close>.
\<close>

definition listRoute :: "db \<Rightarrow> response" where
  "listRoute d = Response 200 (AssetsJson (getAllAssets d))"

definition getRoute :: "db \<Rightarrow> int option \<Rightarrow> response" where
  "getRoute d idp =
     (case idp of
        None \<Rightarrow> Response 400 (Message ''Invalid asset ID'')
      | Some i \<Rightarrow>
          (case getAsset d i of
             Inl e \<Rightarrow> Response 500 (Message ''Failed to fetch asset'')
           | Inr None \<Rightarrow> Response 404 (Message ''Asset not found'')
           | Inr (Some a) \<Rightarrow> Response 200 (AssetJson (Some a))))"

text \<open>\<open>POST /api/assets\<close>\<close>

definition createRoute :: "engine \<Rightarrow> db \<Rightarrow> json \<Rightarrow> db \<times> response" where
  "createRoute E d reqBody =
     (case insertAssetSchema reqBody of
        Inl issues \<Rightarrow> (d, Response 400 (ValidationError ''Validation error'' issues))
      | Inr validatedData \<Rightarrow>
          (case getAssetByTag E d (tag validatedData) of
             Inl e \<Rightarrow> (d, Response 500 (Message ''Failed to create asset''))
           | Inr (Some existingAsset) \<Rightarrow>
               (d, Response 409 (Message ''Asset tag already exists''))
           | Inr None \<Rightarrow>
               (case createAsset E d validatedData of
                  (d', Inl e) \<Rightarrow> (d', Response 500 (Message ''Failed to create asset''))
                | (d', Inr asset) \<Rightarrow> (d', Response 201 (AssetJson asset)))))"

text \<open>\<open>PUT /api/assets/:id\<close>. The tag is looked up only when it is truthy, that is a
  non-empty string.\<close>

definition updateRoute :: "engine \<Rightarrow> db \<Rightarrow> int option \<Rightarrow> json \<Rightarrow> db \<times> response" where
  "updateRoute E d idp reqBody =
     (case idp of
        None \<Rightarrow> (d, Response 400 (Message ''Invalid asset ID''))
      | Some i \<Rightarrow>
          (case partialAssetSchema reqBody of
             Inl issues \<Rightarrow> (d, Response 400 (ValidationError ''Validation error'' issues))
           | Inr validatedData \<Rightarrow>
               (case (case tag_opt validatedData of
                        None \<Rightarrow> Inr False
                      | Some t \<Rightarrow>
                          (if t = [] then Inr False
                           else (case getAssetByTag E d t of
                                   Inl e \<Rightarrow> Inl e
                                 | Inr None \<Rightarrow> Inr False
                                 | Inr (Some existingAsset) \<Rightarrow>
                                     Inr (asset_id existingAsset \<noteq> i)))) of
                  Inl e \<Rightarrow> (d, Response 500 (Message ''Failed to update asset''))
                | Inr True \<Rightarrow> (d, Response 409 (Message ''Asset tag already exists''))
                | Inr False \<Rightarrow>
                    (case updateAsset E d i validatedData of
                       (d', Inl e) \<Rightarrow> (d', Response 500 (Message ''Failed to update asset''))
                     | (d', Inr None) \<Rightarrow> (d', Response 404 (Message ''Asset not found''))
                     | (d', Inr (Some asset)) \<Rightarrow>
                         (d', Response 200 (AssetJson (Some asset)))))))"

text \<open>\<open>DELETE /api/assets/:id\<close>\<close>

definition deleteRoute :: "db \<Rightarrow> int option \<Rightarrow> db \<times> response" where
  "deleteRoute d idp =
     (case idp of
        None \<Rightarrow> (d, Response 400 (Message ''Invalid asset ID''))
      | Some i \<Rightarrow>
          (case deleteAsset d i of
             (d', Inl e) \<Rightarrow> (d', Response 500 (Message ''Failed to delete asset''))
           | (d', Inr False) \<Rightarrow> (d', Response 404 (Message ''Asset not found''))
           | (d', Inr True) \<Rightarrow> (d', Response 200 (Message ''Asset deleted successfully''))))"

subsection \<open>Import\<close>

text \<open>The six alias chains of the import loop, each a chain of \<open>||\<close>.\<close>

datatype field = Name | Type | Tag | Cost | SerialNumber | AcquisitionDate

fun pick :: "field \<Rightarrow> row \<Rightarrow> cell option" where
  "pick Name r =
     jor (jor (jor (lookup r ''Asset Name'') (lookup r ''Name'')) (lookup r ''asset_name''))
         (lookup r ''name'')"
| "pick Type r =
     jor (jor (jor (lookup r ''Asset Type'') (lookup r ''Type'')) (lookup r ''asset_type''))
         (lookup r ''type'')"
| "pick Tag r =
     jor (jor (jor (lookup r ''Asset Tag'') (lookup r ''Tag'')) (lookup r ''asset_tag''))
         (lookup r ''tag'')"
| "pick Cost r =
     jor (jor (jor (lookup r ''Cost'') (lookup r ''cost'')) (lookup r ''Price''))
         (lookup r ''price'')"
| "pick SerialNumber r =
     jor (jor (jor (lookup r ''Serial Number'') (lookup r ''SerialNumber''))
              (lookup r ''serial_number''))
         (lookup r ''serial'')"
| "pick AcquisitionDate r =
     jor (jor (jor (lookup r ''Acquisition Date'') (lookup r ''AcquisitionDate''))
              (lookup r ''acquisition_date''))
         (lookup r ''date'')"

text \<open>\<open>xs.join(sep)\<close>\<close>

fun join :: "string \<Rightarrow> string list \<Rightarrow> string" where
  "join sep [] = []"
| "join sep [x] = x"
| "join sep (x # y # ys) = x @ sep @ join sep (y # ys)"

text \<open>\<open>key: v ? String(v) : undefined\<close>; an undefined key is left out of the object.\<close>

definition optional_key :: "string \<Rightarrow> cell option \<Rightarrow> (string \<times> json) list" where
  "optional_key key v =
     (case v of
        None \<Rightarrow> []
      | Some c \<Rightarrow> (if truthy (Some c) then [(key, JStr (String c))] else []))"

definition missing_msg :: "nat \<Rightarrow> string" where
  "missing_msg rowNumber =
     ''Row '' @ string_of_nat rowNumber @ '': Missing required fields (Name, Type, Tag, Cost)''"

text \<open>
  The body of the loop for one row: \<open>Inl\<close> is the message pushed to \<open>errors\<close>, \<open>Inr\<close>
  the asset pushed to \<open>assetsToCreate\<close>. The table is only read. An error of the tag
  lookup is caught by the \<open>catch\<close> of the row.
\<close>

definition import_row :: "engine \<Rightarrow> db \<Rightarrow> nat \<Rightarrow> row \<Rightarrow> string + InsertAsset" where
  "import_row E d rowNumber r =
     (let name = pick Name r; type = pick Type r; tag = pick Tag r;
          cost = pick Cost r; serialNumber = pick SerialNumber r;
          acquisitionDate = pick AcquisitionDate r
      in if \<not> truthy name \<or> \<not> truthy type \<or> \<not> truthy tag \<or> cost = None
         then Inl (missing_msg rowNumber)
         else (case (name, type, tag, cost) of
                 (Some n, Some ty, Some tg, Some c) \<Rightarrow>
                   (case getAssetByTag E d (String tg) of
                      Inl e \<Rightarrow>
                        Inl (''Row '' @ string_of_nat rowNumber @ '': Invalid data format'')
                    | Inr (Some existingAsset) \<Rightarrow>
                        Inl (''Row '' @ string_of_nat rowNumber @ '': Asset tag '' @ [CHR 0x27]
                             @ String tg @ [CHR 0x27] @ '' already exists'')
                    | Inr None \<Rightarrow>
                        (case insertAssetSchema
                                (JObj ([(''name'', JStr (String n)),
                                        (''type'', JStr (String ty)),
                                        (''tag'', JStr (String tg)),
                                        (''cost'', JStr (String c))]
                                       @ optional_key ''serialNumber'' serialNumber
                                       @ optional_key ''acquisitionDate'' acquisitionDate)) of
                           Inl issues \<Rightarrow>
                             Inl (''Row '' @ string_of_nat rowNumber @ '': ''
                                  @ join '', '' (map snd issues))
                         | Inr validatedAsset \<Rightarrow> Inr validatedAsset))
               | _ \<Rightarrow> Inl (''Row '' @ string_of_nat rowNumber @ '': Invalid data format'')))"

text \<open>The loop \<open>for (let i = 0; i < data.length; i++)\<close>, from index \<open>i\<close> on, with the
  two accumulators.\<close>

fun import_rows :: "engine \<Rightarrow> db \<Rightarrow> nat \<Rightarrow> row list \<Rightarrow> InsertAsset list \<times> string list
                     \<Rightarrow> InsertAsset list \<times> string list" where
  "import_rows E d i [] acc = acc"
| "import_rows E d i (r # rs) (assetsToCreate, errors) =
     (case import_row E d (i + 2) r of
        Inl msg \<Rightarrow> import_rows E d (i + 1) rs (assetsToCreate, errors @ [msg])
      | Inr validatedAsset \<Rightarrow>
          import_rows E d (i + 1) rs (assetsToCreate @ [validatedAsset], errors))"

text \<open>
  \<open>POST /api/assets/import\<close>. The upload is \<open>None\<close> when no file came, otherwise the
  rows that \<open>sheet_to_json\<close> reads from the first sheet of the workbook.
\<close>

definition importRoute :: "engine \<Rightarrow> db \<Rightarrow> row list option \<Rightarrow> db \<times> response" where
  "importRoute E d file =
     (case file of
        None \<Rightarrow> (d, Response 400 (Message ''No file uploaded''))
      | Some data \<Rightarrow>
          (if length data = 0 then (d, Response 400 (Message ''Excel file is empty''))
           else (case import_rows E d 0 data ([], []) of
                   (assetsToCreate, errors) \<Rightarrow>
                     (if length errors > 0 \<and> length assetsToCreate = 0
                      then (d, Response 400 (ImportFailed ''No valid assets found in file'' errors))
                      else (case createManyAssets E d assetsToCreate of
                              (d', Inl e) \<Rightarrow>
                                (d', Response 500
                                       (Message ''Failed to import assets from Excel file''))
                            | (d', Inr createdAssets) \<Rightarrow>
                                (d', Response 200
                                       (ImportSummary
                                          (''Successfully imported ''
                                           @ string_of_nat (length createdAssets) @ '' assets'')
                                          (length createdAssets)
                                          (if length errors > 0 then Some errors else None)
                                          createdAssets)))))))"

subsection \<open>Registration\<close>

text \<open>
  \<open>registerRoutes\<close> registers the handlers in this order. A request goes to the first
  registered route of its method whose path matches; each handler answers the request
  and passes it to no later route. A path is the list of its segments (the text
  between the slashes); a literal segment matches without regard to the case of
  letters, a parameter (\<open>:id\<close>) matches any non-empty segment.
\<close>

datatype verb = GET | POST | PUT | DELETE

datatype endpoint =
    ListAssets | GetAsset | CreateAsset | UpdateAsset | DeleteAsset | ImportAssets
  | ExportAssets

datatype piece = Lit string | Param

definition registered :: "(verb \<times> piece list \<times> endpoint) list" where
  "registered =
     [(GET, [Lit ''api'', Lit ''assets''], ListAssets),
      (GET, [Lit ''api'', Lit ''assets'', Param], GetAsset),
      (POST, [Lit ''api'', Lit ''assets''], CreateAsset),
      (PUT, [Lit ''api'', Lit ''assets'', Param], UpdateAsset),
      (DELETE, [Lit ''api'', Lit ''assets'', Param], DeleteAsset),
      (POST, [Lit ''api'', Lit ''assets'', Lit ''import''], ImportAssets),
      (GET, [Lit ''api'', Lit ''assets'', Lit ''export''], ExportAssets)]"

definition lower_char :: "char \<Rightarrow> char" where
  "lower_char c =
     (case map_of (zip ''ABCDEFGHIJKLMNOPQRSTUVWXYZ'' ''abcdefghijklmnopqrstuvwxyz'') c of
        None \<Rightarrow> c
      | Some l \<Rightarrow> l)"

fun piece_matches :: "piece \<Rightarrow> string \<Rightarrow> bool" where
  "piece_matches (Lit l) s = (map lower_char s = map lower_char l)"
| "piece_matches Param s = (s \<noteq> [])"

definition route_matches :: "verb \<Rightarrow> string list \<Rightarrow> verb \<times> piece list \<times> endpoint \<Rightarrow> bool" where
  "route_matches v path r = (fst r = v \<and> list_all2 piece_matches (fst (snd r)) path)"

definition dispatch :: "verb \<Rightarrow> string list \<Rightarrow> endpoint option" where
  "dispatch v path = map_option (\<lambda>r. snd (snd r)) (find (route_matches v path) registered)"

section \<open>Vocabulary of the statements\<close>

text \<open>What the insert schema asks of each key of a body.\<close>

fun is_string :: "json option \<Rightarrow> bool" where
  "is_string (Some (JStr s)) = True"
| "is_string _ = False"

fun is_nullish_string :: "json option \<Rightarrow> bool" where
  "is_nullish_string None = True"
| "is_nullish_string (Some JNull) = True"
| "is_nullish_string (Some (JStr s)) = True"
| "is_nullish_string _ = False"

fun key_of :: "field \<Rightarrow> string" where
  "key_of Name = ''name''"
| "key_of Type = ''type''"
| "key_of Tag = ''tag''"
| "key_of SerialNumber = ''serialNumber''"
| "key_of Cost = ''cost''"
| "key_of AcquisitionDate = ''acquisitionDate''"

fun field_ok :: "(string \<times> json) list \<Rightarrow> field \<Rightarrow> bool" where
  "field_ok fs SerialNumber = is_nullish_string (map_of fs ''serialNumber'')"
| "field_ok fs AcquisitionDate = is_nullish_string (map_of fs ''acquisitionDate'')"
| "field_ok fs f = is_string (map_of fs (key_of f))"

definition field_issues :: "(string \<times> json) list \<Rightarrow> field \<Rightarrow> issue list" where
  "field_issues fs f =
     (if f = SerialNumber \<or> f = AcquisitionDate
      then zStringNullish (key_of f) (map_of fs (key_of f))
      else zString (key_of f) (map_of fs (key_of f)))"

definition all_issues :: "(string \<times> json) list \<Rightarrow> issue list" where
  "all_issues fs =
     concat (map (field_issues fs) [Name, Type, Tag, SerialNumber, Cost, AcquisitionDate])"

text \<open>The header aliases of each field, in the order the import loop chains them.\<close>

fun aliases :: "field \<Rightarrow> string list" where
  "aliases Name = [''Asset Name'', ''Name'', ''asset_name'', ''name'']"
| "aliases Type = [''Asset Type'', ''Type'', ''asset_type'', ''type'']"
| "aliases Tag = [''Asset Tag'', ''Tag'', ''asset_tag'', ''tag'']"
| "aliases Cost = [''Cost'', ''cost'', ''Price'', ''price'']"
| "aliases SerialNumber = [''Serial Number'', ''SerialNumber'', ''serial_number'', ''serial'']"
| "aliases AcquisitionDate =
     [''Acquisition Date'', ''AcquisitionDate'', ''acquisition_date'', ''date'']"

text \<open>The value of \<open>x1 || x2 || ... || xn\<close>.\<close>

fun first_truthy :: "cell option list \<Rightarrow> cell option" where
  "first_truthy [] = None"
| "first_truthy [x] = x"
| "first_truthy (x # y # ys) = (if truthy x then x else first_truthy (y # ys))"


text \<open>The fields a row must carry, and a field none of whose alias columns is in the row.\<close>

fun required :: "field \<Rightarrow> bool" where
  "required SerialNumber = False"
| "required AcquisitionDate = False"
| "required f = True"

definition column_absent :: "row \<Rightarrow> field \<Rightarrow> bool" where
  "column_absent r f \<longleftrightarrow> (\<forall>a \<in> set (aliases f). lookup r a = None)"

text \<open>Rows numbered from \<open>n\<close> on, as one insert statement creates them.\<close>

fun number_rows :: "int \<Rightarrow> InsertAsset list \<Rightarrow> Asset list" where
  "number_rows n [] = []"
| "number_rows n (v # vs) = to_row n v # number_rows (n + 1) vs"

text \<open>
  The constraints of the table: \<open>tag\<close> is unique; \<open>id\<close> is the primary key and every
  id in the table was drawn from the sequence.
\<close>

definition tags_unique :: "db \<Rightarrow> bool" where
  "tags_unique d \<longleftrightarrow> distinct (map tag (assets d))"

definition pk_ok :: "db \<Rightarrow> bool" where
  "pk_ok d \<longleftrightarrow> distinct (map asset_id (assets d)) \<and> (\<forall>a \<in> set (assets d). asset_id a < next_id d)"

text \<open>The columns of a row other than the id.\<close>

definition fields_of :: "Asset \<Rightarrow> InsertAsset" where
  "fields_of a = \<lparr> name = name a, type = type a, tag = tag a, serialNumber = serialNumber a,
                   cost = cost a, acquisitionDate = acquisitionDate a \<rparr>"

text \<open>The text columns of the engine in the examples: a text is refused when it holds a
  NUL character.\<close>

definition no_nul :: "string \<Rightarrow> bool" where
  "no_nul s \<longleftrightarrow> CHR 0x00 \<notin> set s"

text \<open>The stored forms of the rows of a batch, when the engine takes every one.\<close>

fun coerce_all :: "engine \<Rightarrow> InsertAsset list \<Rightarrow> InsertAsset list option" where
  "coerce_all E [] = Some []"
| "coerce_all E (v # vs) =
     (case coerce_values E v of
        None \<Rightarrow> None
      | Some r \<Rightarrow> (case coerce_all E vs of None \<Rightarrow> None | Some rs \<Rightarrow> Some (r # rs)))"

section \<open>The validation schema\<close>

lemma zString_Nil: "zString k v = [] \<longleftrightarrow> is_string v"
  by (cases v rule: is_string.cases) (simp_all add: zString_def)

lemma zStringNullish_Nil: "zStringNullish k v = [] \<longleftrightarrow> is_nullish_string v"
  by (cases v rule: is_nullish_string.cases) (simp_all add: zStringNullish_def)

lemma zString_paths: "fst ` set (zString k v) = (if is_string v then {} else {[k]})"
  by (cases v rule: is_string.cases) (simp_all add: zString_def)

lemma zStringNullish_paths:
  "fst ` set (zStringNullish k v) = (if is_nullish_string v then {} else {[k]})"
  by (cases v rule: is_nullish_string.cases) (simp_all add: zStringNullish_def)

lemma field_issues_Nil: "field_issues fs f = [] \<longleftrightarrow> field_ok fs f"
  by (cases f) (simp_all add: field_issues_def zString_Nil zStringNullish_Nil)

lemma field_issues_paths:
  "fst ` set (field_issues fs f) = (if field_ok fs f then {} else {[key_of f]})"
  by (cases f) (simp_all add: field_issues_def zString_paths zStringNullish_paths)

lemma field_UNIV: "set [Name, Type, Tag, SerialNumber, Cost, AcquisitionDate] = UNIV"
proof -
  have "f \<in> set [Name, Type, Tag, SerialNumber, Cost, AcquisitionDate]" for f
    by (cases f) simp_all
  then show ?thesis by blast
qed

lemma insertAssetSchema_issues:
  "insertAssetSchema (JObj fs) = Inl issues \<Longrightarrow> issues = all_issues fs"
  by (simp add: insertAssetSchema_def Let_def all_issues_def field_issues_def split: if_splits)

lemma insertAssetSchema_Inr_iff:
  "(\<exists>v. insertAssetSchema (JObj fs) = Inr v) \<longleftrightarrow> all_issues fs = []"
  by (simp add: insertAssetSchema_def Let_def all_issues_def field_issues_def)

lemma insertAssetSchema_not_object:
  "(\<forall>fs. body \<noteq> JObj fs) \<Longrightarrow> \<exists>m. insertAssetSchema body = Inl [([], m)]"
  by (cases body) (simp_all add: insertAssetSchema_def)

lemma all_issues_Nil: "all_issues fs = [] \<longleftrightarrow> (\<forall>f. field_ok fs f)"
  unfolding all_issues_def concat_eq_Nil_conv set_map field_UNIV
  by (simp add: field_issues_Nil)

lemma all_issues_paths: "fst ` set (all_issues fs) = {[key_of f] | f. \<not> field_ok fs f}"
  unfolding all_issues_def set_concat set_map field_UNIV image_UN
  by (auto simp: field_issues_paths split: if_splits)

text \<open>
  C1, as the claim states it, fails: the schema accepts a body whose \<open>name\<close>, \<open>type\<close>
  and \<open>tag\<close> are empty strings and whose \<open>cost\<close> is not a number.
\<close>

theorem insertAssetSchema_accepts_empty_and_unparseable:
  "insertAssetSchema
     (JObj [(''name'', JStr ''''), (''type'', JStr ''''), (''tag'', JStr ''''),
            (''cost'', JStr ''abc'')])
   = Inr \<lparr> name = '''', type = '''', tag = '''', serialNumber = None, cost = ''abc'',
            acquisitionDate = None \<rparr>"
  by (simp add: insertAssetSchema_def zString_def zStringNullish_def)

text \<open>
  C1, amended: the insert schema accepts a body exactly when it is an object whose
  \<open>name\<close>, \<open>type\<close>, \<open>tag\<close> and \<open>cost\<close> are strings (empty or not, numeric or not) and
  whose \<open>serialNumber\<close> and \<open>acquisitionDate\<close> are strings, null or absent. A rejected
  object carries an issue for exactly the keys that break their rule; a body that is
  not an object is rejected with one issue at the root.
\<close>

theorem insertAssetSchema_accepts_iff_typed:
  "((\<exists>v. insertAssetSchema body = Inr v) \<longleftrightarrow> (\<exists>fs. body = JObj fs \<and> (\<forall>f. field_ok fs f)))
   \<and> (\<forall>fs issues. body = JObj fs \<and> insertAssetSchema body = Inl issues \<longrightarrow>
          issues \<noteq> [] \<and> fst ` set issues = {[key_of f] | f. \<not> field_ok fs f})
   \<and> ((\<forall>fs. body \<noteq> JObj fs) \<longrightarrow> (\<exists>m. insertAssetSchema body = Inl [([], m)]))"
proof (intro conjI allI impI)
  show "(\<exists>v. insertAssetSchema body = Inr v) \<longleftrightarrow> (\<exists>fs. body = JObj fs \<and> (\<forall>f. field_ok fs f))"
  proof (cases "\<exists>fs. body = JObj fs")
    case True
    then obtain fs where "body = JObj fs" by blast
    then show ?thesis
      by (simp add: insertAssetSchema_Inr_iff all_issues_Nil)
  next
    case False
    then have "\<exists>m. insertAssetSchema body = Inl [([], m)]"
      by (simp add: insertAssetSchema_not_object)
    with False show ?thesis by auto
  qed
next
  fix fs issues
  assume a: "body = JObj fs \<and> insertAssetSchema body = Inl issues"
  then have i: "issues = all_issues fs"
    by (auto dest: insertAssetSchema_issues)
  have "\<not> (\<exists>v. insertAssetSchema (JObj fs) = Inr v)"
    using a by auto
  then show "issues \<noteq> []"
    unfolding i insertAssetSchema_Inr_iff .
  show "fst ` set issues = {[key_of f] | f. \<not> field_ok fs f}"
    unfolding i by (rule all_issues_paths)
next
  assume "\<forall>fs. body \<noteq> JObj fs"
  then show "\<exists>m. insertAssetSchema body = Inl [([], m)]"
    by (rule insertAssetSchema_not_object)
qed

theorem insertAssetSchema_accepts_iff_typed_witness:
  "insertAssetSchema
     (JObj [(''name'', JNum 5), (''type'', JStr ''laptop''), (''tag'', JStr ''LP-001''),
            (''cost'', JStr ''12.50'')])
   = Inl [([''name''], ''Expected string, received number'')]
   \<and> {[''name'']} = {[key_of f] | f.
         \<not> field_ok [(''name'', JNum 5), (''type'', JStr ''laptop''), (''tag'', JStr ''LP-001''),
                      (''cost'', JStr ''12.50'')] f}"
proof -
  let ?fs = "[(''name'', JNum 5), (''type'', JStr ''laptop''), (''tag'', JStr ''LP-001''),
              (''cost'', JStr ''12.50'')]"
  have e: "insertAssetSchema (JObj ?fs) = Inl [([''name''], ''Expected string, received number'')]"
    by (simp add: insertAssetSchema_def zString_def zStringNullish_def)
  from insertAssetSchema_accepts_iff_typed [of "JObj ?fs"] e
  have "fst ` set [([''name''], ''Expected string, received number'')]
        = {[key_of f] | f. \<not> field_ok ?fs f}"
    by blast
  with e show ?thesis by simp
qed

section \<open>Header aliases\<close>

lemma pick_first_truthy: "pick f r = first_truthy (map (lookup r) (aliases f))"
  by (cases f) (simp_all add: jor_def)

lemma first_truthy_index:
  "k < length xs \<Longrightarrow> truthy (xs ! k) \<Longrightarrow> (\<forall>j<k. \<not> truthy (xs ! j)) \<Longrightarrow> first_truthy xs = xs ! k"
proof (induction xs arbitrary: k rule: first_truthy.induct)
  case 1
  then show ?case by simp
next
  case (2 x)
  then show ?case by simp
next
  case (3 x y ys)
  show ?case
  proof (cases k)
    case 0
    with "3.prems" show ?thesis by simp
  next
    case (Suc k')
    with "3.prems" have nx: "\<not> truthy x" by auto
    have "first_truthy (y # ys) = (y # ys) ! k'"
    proof (rule "3.IH" [OF nx])
      show "k' < length (y # ys)" using "3.prems" Suc by simp
      show "truthy ((y # ys) ! k')" using "3.prems" Suc by simp
      show "\<forall>j<k'. \<not> truthy ((y # ys) ! j)"
      proof (intro allI impI)
        fix j assume "j < k'"
        then have "Suc j < k" using Suc by simp
        with "3.prems" have "\<not> truthy ((x # y # ys) ! Suc j)" by blast
        then show "\<not> truthy ((y # ys) ! j)" by simp
      qed
    qed
    with nx Suc show ?thesis by simp
  qed
qed

lemma first_truthy_none:
  "xs \<noteq> [] \<Longrightarrow> (\<forall>x \<in> set (butlast xs). \<not> truthy x) \<Longrightarrow> first_truthy xs = last xs"
  by (induction xs rule: first_truthy.induct) (auto split: if_splits)

lemma aliases_length: "length (aliases f) = 4"
  by (cases f) simp_all

text \<open>
  C4, as the claim states it, fails: a row that carries the columns \<open>Cost\<close> and
  \<open>Price\<close> with the number 0 under \<open>Cost\<close> takes its cost from \<open>Price\<close>, the alias of
  lower priority, although the alias of highest priority is present.
\<close>

theorem pick_skips_present_falsy_alias:
  "lookup [(''Cost'', CNum 0), (''Price'', CNum 15)] (aliases Cost ! 0) = Some (CNum 0)
   \<and> pick Cost [(''Cost'', CNum 0), (''Price'', CNum 15)] = Some (CNum 15)"
  by (simp add: lookup_def jor_def)

text \<open>
  C4, amended: for every imported row and every asset field the aliases are tried in
  the fixed order of \<open>aliases\<close>, and the alias of highest priority whose cell is truthy
  (present and not the empty string, not 0, not false) wins; when no alias but
  possibly the last has a truthy cell, the value is the cell of the last alias.
\<close>

theorem pick_first_truthy_alias:
  "(\<forall>k < length (aliases f).
      truthy (lookup r (aliases f ! k)) \<and> (\<forall>j<k. \<not> truthy (lookup r (aliases f ! j)))
      \<longrightarrow> pick f r = lookup r (aliases f ! k))
   \<and> ((\<forall>a \<in> set (butlast (aliases f)). \<not> truthy (lookup r a))
        \<longrightarrow> pick f r = lookup r (last (aliases f)))"
proof (intro conjI allI impI)
  fix k
  assume k: "k < length (aliases f)"
    and h: "truthy (lookup r (aliases f ! k)) \<and> (\<forall>j<k. \<not> truthy (lookup r (aliases f ! j)))"
  have "first_truthy (map (lookup r) (aliases f)) = map (lookup r) (aliases f) ! k"
  proof (rule first_truthy_index)
    show "k < length (map (lookup r) (aliases f))" using k by simp
    show "truthy (map (lookup r) (aliases f) ! k)" using k h by simp
    show "\<forall>j<k. \<not> truthy (map (lookup r) (aliases f) ! j)" using k h by simp
  qed
  then show "pick f r = lookup r (aliases f ! k)"
    using k by (simp add: pick_first_truthy)
next
  assume h: "\<forall>a \<in> set (butlast (aliases f)). \<not> truthy (lookup r a)"
  have ne: "aliases f \<noteq> []" using aliases_length [of f] by auto
  have "first_truthy (map (lookup r) (aliases f)) = last (map (lookup r) (aliases f))"
  proof (rule first_truthy_none)
    show "map (lookup r) (aliases f) \<noteq> []" using ne by simp
    show "\<forall>x \<in> set (butlast (map (lookup r) (aliases f))). \<not> truthy x"
      using h by (simp add: map_butlast [symmetric])
  qed
  then show "pick f r = lookup r (last (aliases f))"
    using ne by (simp add: pick_first_truthy last_map)
qed

theorem pick_first_truthy_alias_witness:
  "pick Name [(''Name'', CStr ''Dell XPS''), (''name'', CStr ''other'')] = Some (CStr ''Dell XPS'')
   \<and> pick Cost [(''Cost'', CNum 0), (''price'', CNum 0)] = Some (CNum 0)"
proof -
  let ?r = "[(''Name'', CStr ''Dell XPS''), (''name'', CStr ''other'')]"
  let ?s = "[(''Cost'', CNum 0), (''price'', CNum 0)]"
  have one: "(1::nat) < length (aliases Name)" by simp
  have t: "truthy (lookup ?r (aliases Name ! 1)) \<and> (\<forall>j<1. \<not> truthy (lookup ?r (aliases Name ! j)))"
    by (simp add: lookup_def)
  have a: "pick Name ?r = lookup ?r (aliases Name ! 1)"
    using pick_first_truthy_alias [of Name ?r] one t by blast
  have n: "\<forall>a \<in> set (butlast (aliases Cost)). \<not> truthy (lookup ?s a)"
    by (simp add: lookup_def)
  have b: "pick Cost ?s = lookup ?s (last (aliases Cost))"
    using pick_first_truthy_alias [of Cost ?s] n by blast
  show ?thesis
    using a b by (simp add: lookup_def)
qed

section \<open>The import loop\<close>




lemma import_row_missing:
  "\<not> truthy (pick Name r) \<or> \<not> truthy (pick Type r) \<or> \<not> truthy (pick Tag r) \<or> pick Cost r = None
   \<Longrightarrow> import_row E d n r = Inl (missing_msg n)"
  by (auto simp add: import_row_def Let_def simp del: pick.simps)



lemma import_rows_acc:
  "import_rows E d i rs (as, es) =
     (as @ fst (import_rows E d i rs ([], [])), es @ snd (import_rows E d i rs ([], [])))"
proof (induction rs arbitrary: i as es)
  case Nil
  then show ?case by simp
next
  case (Cons r rs)
  show ?case
  proof (cases "import_row E d (i + 2) r")
    case (Inl m)
    then show ?thesis
      using Cons.IH [of "Suc i" as "es @ [m]"] Cons.IH [of "Suc i" "[]" "[m]"] by simp
  next
    case (Inr v)
    then show ?thesis
      using Cons.IH [of "Suc i" "as @ [v]" es] Cons.IH [of "Suc i" "[v]" "[]"] by simp
  qed
qed

lemma import_rows_append:
  "import_rows E d i (xs @ ys) acc = import_rows E d (i + length xs) ys (import_rows E d i xs acc)"
proof (induction xs arbitrary: i acc)
  case Nil
  then show ?case by simp
next
  case (Cons x xs)
  obtain as es where acc: "acc = (as, es)" by (cases acc)
  show ?case
    unfolding acc
    by (cases "import_row E d (i + 2) x") (simp_all add: Cons.IH)
qed

lemma import_rows_skip:
  assumes "import_row E d (length pre + 2) r = Inl m"
  shows "import_rows E d 0 (pre @ r # post) ([], []) =
     (fst (import_rows E d 0 pre ([], [])) @ fst (import_rows E d (length pre + 1) post ([], [])),
      snd (import_rows E d 0 pre ([], [])) @ [m]
        @ snd (import_rows E d (length pre + 1) post ([], [])))"
proof -
  obtain as es where p: "import_rows E d 0 pre ([], []) = (as, es)"
    by (cases "import_rows E d 0 pre ([], [])")
  have "import_rows E d 0 (pre @ r # post) ([], []) = import_rows E d (length pre) (r # post) (as, es)"
    by (simp add: import_rows_append p)
  also have "\<dots> = import_rows E d (length pre + 1) post (as, es @ [m])"
    using assms by simp
  also have "\<dots> = (as @ fst (import_rows E d (length pre + 1) post ([], [])),
                   (es @ [m]) @ snd (import_rows E d (length pre + 1) post ([], [])))"
    by (rule import_rows_acc)
  finally show ?thesis by (simp add: p)
qed



lemma column_absent_pick: "column_absent r f \<Longrightarrow> pick f r = None"
  by (cases f) (simp_all add: column_absent_def jor_def)

lemmas import_eval =
  import_row_def lookup_def jor_def getAssetByTag_def insertAssetSchema_def optional_key_def
  no_nul_def
  zString_def zStringNullish_def string_of_int_def string_of_nat.simps digit_char_def
  missing_msg_def

text \<open>
  C5: a row in which no alias column of \<open>name\<close>, \<open>type\<close>, \<open>tag\<close> or \<open>cost\<close> is present
  adds nothing to the batch and adds the message \<open>Row n: Missing required fields\<close>,
  where \<open>n\<close> is the 0-based index of the row plus 2; the rows before and after it are
  processed as they would be without it.
\<close>

theorem import_rejects_row_missing_required:
  assumes "required f" and "column_absent r f"
  shows "import_rows E d 0 (pre @ r # post) ([], []) =
     (fst (import_rows E d 0 pre ([], [])) @ fst (import_rows E d (length pre + 1) post ([], [])),
      snd (import_rows E d 0 pre ([], []))
        @ [''Row '' @ string_of_nat (length pre + 2)
             @ '': Missing required fields (Name, Type, Tag, Cost)'']
        @ snd (import_rows E d (length pre + 1) post ([], [])))"
proof -
  have n: "pick f r = None"
    using assms(2) by (rule column_absent_pick)
  have "\<not> truthy (pick Name r) \<or> \<not> truthy (pick Type r) \<or> \<not> truthy (pick Tag r)
        \<or> pick Cost r = None"
    using assms(1) n by (cases f) (simp_all del: pick.simps)
  then have "import_row E d (length pre + 2) r = Inl (missing_msg (length pre + 2))"
    by (rule import_row_missing)
  then show ?thesis
    unfolding missing_msg_def by (rule import_rows_skip)
qed

theorem import_rejects_row_missing_required_witness:
  "required Cost
   \<and> column_absent [(''Name'', CStr ''Bad Row''), (''Type'', CStr ''monitor''), (''Tag'', CStr ''M-7'')] Cost
   \<and> import_rows \<lparr>text_ok = no_nul, decimal_in = Stored, date_in = Some\<rparr>
       \<lparr>assets = [], next_id = 1\<rparr> 0
       [[(''Name'', CStr ''Dell XPS''), (''Type'', CStr ''laptop''), (''Tag'', CStr ''LP-001''),
         (''Cost'', CStr ''1200.00'')],
        [(''Name'', CStr ''Bad Row''), (''Type'', CStr ''monitor''), (''Tag'', CStr ''M-7'')],
        [(''Name'', CStr ''Desk''), (''Type'', CStr ''furniture''), (''Tag'', CStr ''F-2''),
         (''Cost'', CNum 300)]]
       ([], [])
     = ([\<lparr>name = ''Dell XPS'', type = ''laptop'', tag = ''LP-001'', serialNumber = None,
          cost = ''1200.00'', acquisitionDate = None\<rparr>,
         \<lparr>name = ''Desk'', type = ''furniture'', tag = ''F-2'', serialNumber = None,
          cost = ''300'', acquisitionDate = None\<rparr>],
        [''Row 3: Missing required fields (Name, Type, Tag, Cost)''])"
proof -
  let ?d = "\<lparr>assets = [], next_id = 1\<rparr>"
  let ?E = "\<lparr>text_ok = no_nul, decimal_in = Stored, date_in = Some\<rparr>"
  let ?g1 = "[(''Name'', CStr ''Dell XPS''), (''Type'', CStr ''laptop''), (''Tag'', CStr ''LP-001''),
              (''Cost'', CStr ''1200.00'')]"
  let ?r = "[(''Name'', CStr ''Bad Row''), (''Type'', CStr ''monitor''), (''Tag'', CStr ''M-7'')]"
  let ?g2 = "[(''Name'', CStr ''Desk''), (''Type'', CStr ''furniture''), (''Tag'', CStr ''F-2''),
              (''Cost'', CNum 300)]"
  have q: "required Cost" by simp
  have a: "column_absent ?r Cost"
    by (simp add: column_absent_def lookup_def)
  have pre: "import_rows ?E ?d 0 [?g1] ([], [])
      = ([\<lparr>name = ''Dell XPS'', type = ''laptop'', tag = ''LP-001'', serialNumber = None,
           cost = ''1200.00'', acquisitionDate = None\<rparr>], [])"
    by (simp add: import_eval)
  have post: "import_rows ?E ?d 2 [?g2] ([], [])
      = ([\<lparr>name = ''Desk'', type = ''furniture'', tag = ''F-2'', serialNumber = None,
           cost = ''300'', acquisitionDate = None\<rparr>], [])"
    by (simp add: import_eval)
  have s: "string_of_nat 3 = ''3''"
    by (simp add: string_of_nat.simps digit_char_def)
  have l: "length [?g1] + 1 = 2" "length [?g1] + 2 = 3" by simp_all
  have "import_rows ?E ?d 0 ([?g1] @ ?r # [?g2]) ([], []) =
     (fst (import_rows ?E ?d 0 [?g1] ([], []))
        @ fst (import_rows ?E ?d (length [?g1] + 1) [?g2] ([], [])),
      snd (import_rows ?E ?d 0 [?g1] ([], []))
        @ [''Row '' @ string_of_nat (length [?g1] + 2)
             @ '': Missing required fields (Name, Type, Tag, Cost)'']
        @ snd (import_rows ?E ?d (length [?g1] + 1) [?g2] ([], [])))"
    using q a by (rule import_rejects_row_missing_required)
  then have m: "import_rows ?E ?d 0 [?g1, ?r, ?g2] ([], [])
      = ([\<lparr>name = ''Dell XPS'', type = ''laptop'', tag = ''LP-001'', serialNumber = None,
           cost = ''1200.00'', acquisitionDate = None\<rparr>,
          \<lparr>name = ''Desk'', type = ''furniture'', tag = ''F-2'', serialNumber = None,
           cost = ''300'', acquisitionDate = None\<rparr>],
         [''Row 3: Missing required fields (Name, Type, Tag, Cost)''])"
    by (simp only: l pre post s fst_conv snd_conv append_Cons append_Nil)
  show ?thesis
    by (intro conjI) (rule q, rule a, rule m)
qed

text \<open>
  C10, as the claim states it, fails: a row whose cost cell holds the number 0 under
  the last alias, \<open>price\<close>, is not rejected; it goes to the batch with the cost \<open>0\<close>.
\<close>

theorem import_accepts_zero_under_price:
  "import_row \<lparr>text_ok = no_nul, decimal_in = Stored, date_in = Some\<rparr>
     \<lparr>assets = [], next_id = 1\<rparr> 2
     [(''name'', CStr ''Desk''), (''type'', CStr ''furniture''), (''tag'', CStr ''F-2''),
      (''price'', CNum 0)]
   = Inr \<lparr>name = ''Desk'', type = ''furniture'', tag = ''F-2'', serialNumber = None,
          cost = ''0'', acquisitionDate = None\<rparr>"
  by (simp add: import_eval)

text \<open>
  C10, amended: a falsy cell (the number 0, the empty string, false) is passed over by
  the alias chain like an absent one. A row in which the cells under \<open>Cost\<close>, \<open>cost\<close>
  and \<open>Price\<close> are falsy or absent and no cell is under \<open>price\<close>, or in which every
  alias cell of \<open>name\<close>, of \<open>type\<close> or of \<open>tag\<close> is falsy or absent, is rejected with
  the \<open>Missing required fields\<close> message of its row and left out of the batch.
\<close>

theorem import_treats_falsy_as_missing:
  assumes "(\<not> truthy (lookup r ''Cost'') \<and> \<not> truthy (lookup r ''cost'')
            \<and> \<not> truthy (lookup r ''Price'') \<and> lookup r ''price'' = None)
           \<or> (\<exists>f \<in> {Name, Type, Tag}. \<forall>a \<in> set (aliases f). \<not> truthy (lookup r a))"
  shows "import_row E d n r
           = Inl (''Row '' @ string_of_nat n @ '': Missing required fields (Name, Type, Tag, Cost)'')
         \<and> import_rows E d i (r # rs) (as, es)
           = import_rows E d (i + 1) rs
               (as, es @ [''Row '' @ string_of_nat (i + 2)
                           @ '': Missing required fields (Name, Type, Tag, Cost)''])"
proof -
  have "\<not> truthy (pick Name r) \<or> \<not> truthy (pick Type r) \<or> \<not> truthy (pick Tag r)
        \<or> pick Cost r = None"
    using assms by (auto simp add: jor_def)
  then have "import_row E d k r = Inl (missing_msg k)" for k
    by (rule import_row_missing)
  then show ?thesis
    by (simp add: missing_msg_def)
qed

theorem import_treats_falsy_as_missing_witness:
  "import_row \<lparr>text_ok = no_nul, decimal_in = Stored, date_in = Some\<rparr>
     \<lparr>assets = [], next_id = 1\<rparr> 2
     [(''Asset Name'', CStr ''Desk''), (''Asset Type'', CStr ''furniture''),
      (''Asset Tag'', CStr ''F-2''), (''Cost'', CNum 0)]
   = Inl ''Row 2: Missing required fields (Name, Type, Tag, Cost)''
   \<and> import_row \<lparr>text_ok = no_nul, decimal_in = Stored, date_in = Some\<rparr>
     \<lparr>assets = [], next_id = 1\<rparr> 2
     [(''Asset Name'', CStr ''''), (''Asset Type'', CStr ''furniture''),
      (''Asset Tag'', CStr ''F-2''), (''Cost'', CNum 40)]
   = Inl ''Row 2: Missing required fields (Name, Type, Tag, Cost)''"
proof -
  let ?d = "\<lparr>assets = [], next_id = 1\<rparr>"
  let ?E = "\<lparr>text_ok = no_nul, decimal_in = Stored, date_in = Some\<rparr>"
  let ?r = "[(''Asset Name'', CStr ''Desk''), (''Asset Type'', CStr ''furniture''),
             (''Asset Tag'', CStr ''F-2''), (''Cost'', CNum 0)]"
  let ?s = "[(''Asset Name'', CStr ''''), (''Asset Type'', CStr ''furniture''),
             (''Asset Tag'', CStr ''F-2''), (''Cost'', CNum 40)]"
  have s: "string_of_nat 2 = ''2''"
    by (simp add: string_of_nat.simps digit_char_def)
  have c: "\<not> truthy (lookup ?r ''Cost'') \<and> \<not> truthy (lookup ?r ''cost'')
           \<and> \<not> truthy (lookup ?r ''Price'') \<and> lookup ?r ''price'' = None"
    by (simp add: lookup_def)
  have n: "\<exists>f \<in> {Name, Type, Tag}. \<forall>a \<in> set (aliases f). \<not> truthy (lookup ?s a)"
    by (simp add: lookup_def)
  have a: "import_row ?E ?d 2 ?r
      = Inl (''Row '' @ string_of_nat 2 @ '': Missing required fields (Name, Type, Tag, Cost)'')"
    using import_treats_falsy_as_missing [of ?r ?E ?d 2] c by blast
  have b: "import_row ?E ?d 2 ?s
      = Inl (''Row '' @ string_of_nat 2 @ '': Missing required fields (Name, Type, Tag, Cost)'')"
    using import_treats_falsy_as_missing [of ?s ?E ?d 2] n by blast
  show ?thesis
    using a b unfolding s by simp
qed

section \<open>The store\<close>

lemma to_row_sel [simp]:
  "name (to_row n v) = name v" "type (to_row n v) = type v" "tag (to_row n v) = tag v"
  "serialNumber (to_row n v) = serialNumber v" "cost (to_row n v) = cost v"
  "acquisitionDate (to_row n v) = acquisitionDate v" "asset_id (to_row n v) = n"
  by (simp_all add: to_row_def)

lemma fields_of_to_row [simp]: "fields_of (to_row n v) = v"
  by (simp add: fields_of_def)

lemma number_rows_tags [simp]: "map tag (number_rows n vs) = map tag vs"
  by (induction vs arbitrary: n) simp_all

lemma number_rows_fields [simp]: "map fields_of (number_rows n vs) = vs"
  by (induction vs arbitrary: n) simp_all

lemma number_rows_length [simp]: "length (number_rows n vs) = length vs"
  by (induction vs arbitrary: n) simp_all

lemma number_rows_ids: "a \<in> set (number_rows n vs) \<Longrightarrow> n \<le> asset_id a \<and> asset_id a < n + int (length vs)"
  by (induction vs arbitrary: n) fastforce+

lemma number_rows_distinct: "distinct (map asset_id (number_rows n vs))"
proof (induction vs arbitrary: n)
  case Nil
  then show ?case by simp
next
  case (Cons v vs)
  have "n \<notin> asset_id ` set (number_rows (n + 1) vs)"
    using number_rows_ids [of _ "n + 1" vs] by fastforce
  with Cons.IH [of "n + 1"] show ?case by simp
qed

lemma insert_values_mono: "n \<le> fst (insert_values E tbl n vs)"
proof (induction vs arbitrary: tbl n)
  case Nil
  then show ?case by simp
next
  case (Cons v vs)
  show ?case
  proof (cases "coerce_values E v")
    case None
    then show ?thesis by simp
  next
    case (Some r)
    show ?thesis
      using Cons.IH [of "n + 1" "tbl @ [to_row n r]"] Some
      by (cases "insert_values E (tbl @ [to_row n r]) (n + 1) vs")
         (auto split: sum.splits)
  qed
qed

lemma coerce_values_tag: "coerce_values E v = Some r \<Longrightarrow> tag r = tag v"
  by (auto simp: coerce_values_def split: option.splits if_splits decimal_result.splits)

lemma coerce_values_bind: "coerce_values E v = Some r \<Longrightarrow> bind_ok E v"
  by (auto simp: coerce_values_def bind_ok_def
           split: option.splits if_splits decimal_result.splits)

lemma coerce_all_tags: "coerce_all E vs = Some rs \<Longrightarrow> map tag rs = map tag vs"
  by (induction vs arbitrary: rs) (auto split: option.splits dest: coerce_values_tag)

lemma coerce_all_length: "coerce_all E vs = Some rs \<Longrightarrow> length rs = length vs"
  by (induction vs arbitrary: rs) (auto split: option.splits)

lemma coerce_all_bind: "coerce_all E vs = Some rs \<Longrightarrow> list_all (bind_ok E) vs"
  by (induction vs arbitrary: rs) (auto split: option.splits dest: coerce_values_bind)

lemma insert_values_ok:
  "coerce_all E vs = Some rs \<Longrightarrow> distinct (map tag vs)
   \<Longrightarrow> set (map tag vs) \<inter> set (map tag tbl) = {}
   \<Longrightarrow> insert_values E tbl n vs = (n + int (length vs), Inr (number_rows n rs))"
proof (induction vs arbitrary: tbl n rs)
  case Nil
  then show ?case by simp
next
  case (Cons v vs)
  from Cons.prems(1) obtain r rs' where
    r: "coerce_values E v = Some r" "coerce_all E vs = Some rs'" "rs = r # rs'"
    by (auto split: option.splits)
  have t: "tag r = tag v" using r(1) by (rule coerce_values_tag)
  have "insert_values E (tbl @ [to_row n r]) (n + 1) vs
        = (n + 1 + int (length vs), Inr (number_rows (n + 1) rs'))"
    using Cons.prems(2,3) r(2) t by (intro Cons.IH) auto
  then show ?case using Cons.prems(2,3) r t by simp
qed

lemma insert_values_Inr:
  "insert_values E tbl n vs = (n', Inr cs)
   \<Longrightarrow> (\<exists>rs. coerce_all E vs = Some rs) \<and> distinct (map tag vs)
       \<and> set (map tag vs) \<inter> set (map tag tbl) = {}"
proof (induction vs arbitrary: tbl n n' cs)
  case Nil
  then show ?case by simp
next
  case (Cons v vs)
  from Cons.prems obtain r where r: "coerce_values E v = Some r"
    by (cases "coerce_values E v") simp_all
  have t: "tag r = tag v" using r by (rule coerce_values_tag)
  from Cons.prems r have f: "tag r \<notin> set (map tag tbl)"
    by (simp split: if_splits)
  with Cons.prems r obtain cs' where
    i: "insert_values E (tbl @ [to_row n r]) (n + 1) vs = (n', Inr cs')"
    by (auto split: prod.splits sum.splits)
  from Cons.IH [OF i] f r t show ?case by auto
qed



lemma find_id_Some: "find (\<lambda>a. asset_id a = i) xs = Some a \<Longrightarrow> a \<in> set xs \<and> asset_id a = i"
  by (auto simp: find_Some_iff)

text \<open>What a successful insert statement leaves.\<close>

lemma db_insert_ok:
  assumes "coerce_all E vs = Some rs" "distinct (map tag vs)"
    "set (map tag vs) \<inter> set (map tag (assets d)) = {}"
  shows "db_insert E d vs =
     (\<lparr>assets = assets d @ number_rows (next_id d) rs, next_id = next_id d + int (length rs)\<rparr>,
      Inr (number_rows (next_id d) rs))"
proof -
  have "insert_values E (assets d) (next_id d) vs
        = (next_id d + int (length vs), Inr (number_rows (next_id d) rs))"
    using assms by (intro insert_values_ok)
  then show ?thesis
    using coerce_all_bind [OF assms(1)] coerce_all_length [OF assms(1)]
    by (simp add: db_insert_def)
qed

lemma db_insert_cases:
  "(\<exists>e n'. db_insert E d vs = (d\<lparr>next_id := n'\<rparr>, Inl e) \<and> next_id d \<le> n')
   \<or> (\<exists>rs. coerce_all E vs = Some rs \<and> distinct (map tag rs)
           \<and> set (map tag rs) \<inter> set (map tag (assets d)) = {}
           \<and> db_insert E d vs =
               (\<lparr>assets = assets d @ number_rows (next_id d) rs,
                 next_id = next_id d + int (length rs)\<rparr>,
                Inr (number_rows (next_id d) rs)))"
proof (cases "list_all (bind_ok E) vs")
  case False
  then have "db_insert E d vs = (d\<lparr>next_id := next_id d\<rparr>, Inl InvalidInput)"
    by (simp add: db_insert_def)
  then show ?thesis by (intro disjI1 exI conjI) (assumption, simp)
next
  case True
  obtain n' res where i: "insert_values E (assets d) (next_id d) vs = (n', res)"
    by (cases "insert_values E (assets d) (next_id d) vs")
  have m: "next_id d \<le> n'"
    using insert_values_mono [of "next_id d" E "assets d" vs] i by simp
  show ?thesis
  proof (cases res)
    case (Inl e)
    then have "db_insert E d vs = (d\<lparr>next_id := n'\<rparr>, Inl e)"
      using True i by (simp add: db_insert_def)
    with m show ?thesis by blast
  next
    case (Inr cs)
    with i insert_values_Inr [of E "assets d" "next_id d" vs n' cs]
    obtain rs where rs: "coerce_all E vs = Some rs" "distinct (map tag vs)"
      "set (map tag vs) \<inter> set (map tag (assets d)) = {}"
      by blast
    have e: "map tag rs = map tag vs"
      using rs(1) by (rule coerce_all_tags)
    have d1: "distinct (map tag rs)"
      by (simp only: e rs(2))
    have d2: "set (map tag rs) \<inter> set (map tag (assets d)) = {}"
      by (simp only: e rs(3))
    have "db_insert E d vs =
               (\<lparr>assets = assets d @ number_rows (next_id d) rs,
                 next_id = next_id d + int (length rs)\<rparr>,
                Inr (number_rows (next_id d) rs))"
      using rs by (rule db_insert_ok)
    then show ?thesis
      using rs(1) d1 d2 by blast
  qed
qed

lemma db_insert_invariants:
  assumes "pk_ok d" "tags_unique d"
  shows "pk_ok (fst (db_insert E d vs)) \<and> tags_unique (fst (db_insert E d vs))"
  using db_insert_cases [of E d vs]
proof (elim disjE exE conjE)
  fix e n'
  assume "db_insert E d vs = (d\<lparr>next_id := n'\<rparr>, Inl e)" "next_id d \<le> n'"
  then show ?thesis
    using assms by (fastforce simp: pk_ok_def tags_unique_def)
next
  fix rs
  assume c: "distinct (map tag rs)" "set (map tag rs) \<inter> set (map tag (assets d)) = {}"
    and r: "db_insert E d vs =
               (\<lparr>assets = assets d @ number_rows (next_id d) rs,
                 next_id = next_id d + int (length rs)\<rparr>,
                Inr (number_rows (next_id d) rs))"
  have ids: "\<forall>a \<in> set (number_rows (next_id d) rs).
               next_id d \<le> asset_id a \<and> asset_id a < next_id d + int (length rs)"
    using number_rows_ids by blast
  have t: "tags_unique (fst (db_insert E d vs))"
    using assms(2) c by (auto simp: r tags_unique_def)
  have "asset_id ` set (assets d) \<inter> asset_id ` set (number_rows (next_id d) rs) = {}"
    using assms(1) ids by (fastforce simp: pk_ok_def)
  then have p: "pk_ok (fst (db_insert E d vs))"
    using assms(1) ids number_rows_distinct [of "next_id d" rs]
    by (fastforce simp: r pk_ok_def)
  from p t show ?thesis ..
qed

lemma apply_patch_id [simp]: "asset_id (apply_patch q b) = asset_id b"
  by (simp add: apply_patch_def)

lemma apply_patch_tag:
  "tag (apply_patch q b) = (case tag_opt q of None \<Rightarrow> tag b | Some t \<Rightarrow> t)"
  by (simp add: apply_patch_def)

lemma coerce_patch_same:
  "coerce_patch E p = Some q \<Longrightarrow>
     name_opt q = name_opt p \<and> type_opt q = type_opt p \<and> tag_opt q = tag_opt p
     \<and> serialNumber_opt q = serialNumber_opt p \<and> patch_bind_ok E p"
  by (auto simp: coerce_patch_def patch_bind_ok_def
           split: option.splits if_splits decimal_result.splits)

lemma tags_unique_eq:
  "tags_unique d \<Longrightarrow> a \<in> set (assets d) \<Longrightarrow> b \<in> set (assets d) \<Longrightarrow> tag a = tag b \<Longrightarrow> a = b"
  by (auto simp: tags_unique_def distinct_map dest: inj_onD)

lemma pk_eq:
  "pk_ok d \<Longrightarrow> a \<in> set (assets d) \<Longrightarrow> b \<in> set (assets d) \<Longrightarrow> asset_id a = asset_id b
   \<Longrightarrow> a = b"
  by (auto simp: pk_ok_def distinct_map dest: inj_onD)

text \<open>Under the primary key one row holds a given id.\<close>

lemma filter_id_single:
  "distinct (map asset_id xs) \<Longrightarrow> find (\<lambda>a. asset_id a = i) xs = Some a
   \<Longrightarrow> filter (\<lambda>b. asset_id b = i) xs = [a]"
proof (induction xs)
  case Nil
  then show ?case by simp
next
  case (Cons x xs)
  show ?case
  proof (cases "asset_id x = i")
    case True
    then have "i \<notin> asset_id ` set xs" using Cons.prems(1) by auto
    then have "filter (\<lambda>b. asset_id b = i) xs = []"
      by (auto simp: filter_empty_conv)
    with True Cons.prems(2) show ?thesis by simp
  next
    case False
    with Cons show ?thesis by simp
  qed
qed

lemma updateAsset_cases:
  "(\<exists>e. updateAsset E d i p = (d, Inl e))
   \<or> (updateAsset E d i p = (d, Inr None) \<and> find (\<lambda>a. asset_id a = i) (assets d) = None)
   \<or> (\<exists>q a. coerce_patch E p = Some q \<and> \<not> no_values p \<and> int4_ok i
         \<and> find (\<lambda>a. asset_id a = i) (assets d) = Some a
         \<and> (\<forall>t. tag_opt q = Some t \<longrightarrow> (\<forall>b \<in> set (assets d). asset_id b \<noteq> i \<longrightarrow> tag b \<noteq> t))
         \<and> updateAsset E d i p =
             (d\<lparr>assets := filter (\<lambda>b. asset_id b \<noteq> i) (assets d)
                           @ map (apply_patch q) (filter (\<lambda>b. asset_id b = i) (assets d))\<rparr>,
              Inr (Some (apply_patch q a))))"
  by (auto simp: updateAsset_def split: option.splits)

lemma updateAsset_invariants:
  assumes "pk_ok d" "tags_unique d"
  shows "pk_ok (fst (updateAsset E d i p)) \<and> tags_unique (fst (updateAsset E d i p))"
  using updateAsset_cases [of E d i p]
proof (elim disjE exE conjE)
  fix e assume "updateAsset E d i p = (d, Inl e)"
  then show ?thesis using assms by simp
next
  assume "updateAsset E d i p = (d, Inr None)"
  then show ?thesis using assms by simp
next
  fix q a
  assume f: "find (\<lambda>a. asset_id a = i) (assets d) = Some a"
    and nv: "\<forall>t. tag_opt q = Some t \<longrightarrow> (\<forall>b \<in> set (assets d). asset_id b \<noteq> i \<longrightarrow> tag b \<noteq> t)"
    and r: "updateAsset E d i p =
             (d\<lparr>assets := filter (\<lambda>b. asset_id b \<noteq> i) (assets d)
                           @ map (apply_patch q) (filter (\<lambda>b. asset_id b = i) (assets d))\<rparr>,
              Inr (Some (apply_patch q a)))"
  let ?rest = "filter (\<lambda>b. asset_id b \<noteq> i) (assets d)"
  have a: "a \<in> set (assets d)" "asset_id a = i"
    using find_id_Some [OF f] by simp_all
  have dist: "distinct (map asset_id (assets d))" "distinct (map tag (assets d))"
    using assms by (simp_all add: pk_ok_def tags_unique_def)
  have one: "filter (\<lambda>b. asset_id b = i) (assets d) = [a]"
    using dist(1) f by (rule filter_id_single)
  have new: "assets (fst (updateAsset E d i p)) = ?rest @ [apply_patch q a]"
    by (simp add: r one)
  have lt: "\<forall>b \<in> set (?rest @ [apply_patch q a]). asset_id b < next_id d"
    using assms(1) a by (auto simp: pk_ok_def)
  have "i \<notin> asset_id ` set ?rest" by auto
  then have "distinct (map asset_id (?rest @ [apply_patch q a]))"
    using dist(1) a(2) by (simp add: distinct_map_filter)
  with lt have p: "pk_ok (fst (updateAsset E d i p))"
    unfolding pk_ok_def new by (simp add: r)
  have "tag (apply_patch q a) \<notin> tag ` set ?rest"
  proof
    assume "tag (apply_patch q a) \<in> tag ` set ?rest"
    then obtain b where b: "b \<in> set (assets d)" "asset_id b \<noteq> i"
        "tag b = tag (apply_patch q a)"
      by auto
    show False
    proof (cases "tag_opt q")
      case None
      then have "tag b = tag a" using b(3) by (simp add: apply_patch_tag)
      then have "b = a" using tags_unique_eq [OF assms(2) b(1) a(1)] by simp
      with a(2) b(2) show False by simp
    next
      case (Some t)
      then have "tag b = t" using b(3) by (simp add: apply_patch_tag)
      with nv Some b show False by blast
    qed
  qed
  then have "distinct (map tag (?rest @ [apply_patch q a]))"
    using dist(2) by (simp add: distinct_map_filter)
  then have t: "tags_unique (fst (updateAsset E d i p))"
    unfolding tags_unique_def new .
  from p t show ?thesis ..
qed

lemma createAsset_invariants:
  assumes "pk_ok d" "tags_unique d"
  shows "pk_ok (fst (createAsset E d v)) \<and> tags_unique (fst (createAsset E d v))"
proof -
  have "fst (createAsset E d v) = fst (db_insert E d [v])"
    by (cases "db_insert E d [v]") (simp add: createAsset_def split: sum.splits)
  then show ?thesis
    using db_insert_invariants [OF assms, of E "[v]"] by simp
qed

lemma createManyAssets_invariants:
  assumes "pk_ok d" "tags_unique d"
  shows "pk_ok (fst (createManyAssets E d vs)) \<and> tags_unique (fst (createManyAssets E d vs))"
  using db_insert_invariants [OF assms, of E vs] assms
  by (simp add: createManyAssets_def)

lemma deleteAsset_invariants:
  assumes "pk_ok d" "tags_unique d"
  shows "pk_ok (fst (deleteAsset d i)) \<and> tags_unique (fst (deleteAsset d i))"
  using assms by (auto simp: deleteAsset_def pk_ok_def tags_unique_def distinct_map_filter)

lemma createRoute_invariants:
  assumes "pk_ok d" "tags_unique d"
  shows "pk_ok (fst (createRoute E d body)) \<and> tags_unique (fst (createRoute E d body))"
proof (cases "insertAssetSchema body")
  case (Inl issues)
  then show ?thesis using assms by (simp add: createRoute_def)
next
  case (Inr v)
  show ?thesis
  proof (cases "getAssetByTag E d (tag v) = Inr None")
    case False
    then have "fst (createRoute E d body) = d"
      using Inr by (auto simp: createRoute_def split: sum.splits option.splits)
    then show ?thesis using assms by simp
  next
    case True
    have "fst (createRoute E d body) = fst (db_insert E d [v])"
      using Inr True
      by (cases "db_insert E d [v]") (simp add: createRoute_def createAsset_def split: sum.splits)
    then show ?thesis
      using db_insert_invariants [OF assms, of E "[v]"] by simp
  qed
qed

lemma updateRoute_invariants:
  assumes "pk_ok d" "tags_unique d"
  shows "pk_ok (fst (updateRoute E d idp body)) \<and> tags_unique (fst (updateRoute E d idp body))"
proof (cases idp)
  case None
  then show ?thesis using assms by (simp add: updateRoute_def)
next
  case (Some i)
  show ?thesis
  proof (cases "partialAssetSchema body")
    case (Inl issues)
    then show ?thesis using assms Some by (simp add: updateRoute_def)
  next
    case (Inr p)
    have "fst (updateRoute E d idp body) = d
          \<or> fst (updateRoute E d idp body) = fst (updateAsset E d i p)"
      using Some Inr
      by (cases "updateAsset E d i p")
         (simp add: updateRoute_def split: sum.splits option.splits bool.splits)
    then show ?thesis
      using updateAsset_invariants [OF assms, of E i p] assms by auto
  qed
qed

lemma importRoute_invariants:
  assumes "pk_ok d" "tags_unique d"
  shows "pk_ok (fst (importRoute E d upload)) \<and> tags_unique (fst (importRoute E d upload))"
proof (cases upload)
  case None
  then show ?thesis using assms by (simp add: importRoute_def)
next
  case (Some data)
  obtain as es where s: "import_rows E d 0 data ([], []) = (as, es)"
    by (cases "import_rows E d 0 data ([], [])")
  have "fst (importRoute E d upload) = d \<or> fst (importRoute E d upload) = fst (db_insert E d as)"
    using Some s
    by (cases "db_insert E d as")
       (simp add: importRoute_def createManyAssets_def split: sum.splits)
  then show ?thesis
    using db_insert_invariants [OF assms, of E as] assms by auto
qed

lemma deleteRoute_invariants:
  assumes "pk_ok d" "tags_unique d"
  shows "pk_ok (fst (deleteRoute d idp)) \<and> tags_unique (fst (deleteRoute d idp))"
proof (cases idp)
  case None
  then show ?thesis using assms by (simp add: deleteRoute_def)
next
  case (Some i)
  have "fst (deleteRoute d idp) = fst (deleteAsset d i)"
    using Some
    by (cases "deleteAsset d i") (simp add: deleteRoute_def split: sum.splits bool.splits)
  then show ?thesis
    using deleteAsset_invariants [OF assms, of i] by simp
qed

lemmas store_eval =
  db_insert_def createManyAssets_def createAsset_def updateAsset_def deleteAsset_def
  coerce_values_def coerce_patch_def texts_ok_def bind_ok_def patch_texts_ok_def
  patch_bind_ok_def no_values_def
  apply_patch_def to_row_def getAsset_def int4_ok_def pk_ok_def tags_unique_def

text \<open>
  C2: the unique constraint on \<open>tag\<close> makes tag uniqueness an invariant of the store.
  From a table that satisfies its primary key and in which no two assets share a tag,
  every mutating route (create, update, delete, import) and every mutating operation of
  the storage class leaves such a table, whatever the request; an import whose file
  carries one fresh tag twice is refused as a whole by the insert statement.
\<close>

theorem tag_uniqueness_invariant:
  assumes "pk_ok d" and "tags_unique d"
  shows "tags_unique (fst (createRoute E d reqBody)) \<and> pk_ok (fst (createRoute E d reqBody))
       \<and> tags_unique (fst (updateRoute E d idp reqBody)) \<and> pk_ok (fst (updateRoute E d idp reqBody))
       \<and> tags_unique (fst (importRoute E d upload)) \<and> pk_ok (fst (importRoute E d upload))
       \<and> tags_unique (fst (deleteRoute d idp)) \<and> pk_ok (fst (deleteRoute d idp))
       \<and> tags_unique (fst (createAsset E d v)) \<and> pk_ok (fst (createAsset E d v))
       \<and> tags_unique (fst (updateAsset E d i p)) \<and> pk_ok (fst (updateAsset E d i p))
       \<and> tags_unique (fst (createManyAssets E d vs)) \<and> pk_ok (fst (createManyAssets E d vs))
       \<and> tags_unique (fst (deleteAsset d i)) \<and> pk_ok (fst (deleteAsset d i))"
  using createRoute_invariants [OF assms, of E reqBody]
    updateRoute_invariants [OF assms, of E idp reqBody]
    importRoute_invariants [OF assms, of E upload]
    deleteRoute_invariants [OF assms, of idp]
    createAsset_invariants [OF assms, of E v]
    updateAsset_invariants [OF assms, of E i p]
    createManyAssets_invariants [OF assms, of E vs]
    deleteAsset_invariants [OF assms, of i]
  by blast

theorem tag_uniqueness_invariant_witness:
  "pk_ok \<lparr>assets = [\<lparr>name = ''Dell XPS'', type = ''laptop'', tag = ''LP-001'',
                     serialNumber = None, cost = ''1200.00'', acquisitionDate = None,
                     asset_id = 1\<rparr>], next_id = 2\<rparr>
   \<and> tags_unique \<lparr>assets = [\<lparr>name = ''Dell XPS'', type = ''laptop'', tag = ''LP-001'',
                     serialNumber = None, cost = ''1200.00'', acquisitionDate = None,
                     asset_id = 1\<rparr>], next_id = 2\<rparr>
   \<and> importRoute \<lparr>text_ok = no_nul, decimal_in = Stored, date_in = Some\<rparr>
        \<lparr>assets = [\<lparr>name = ''Dell XPS'', type = ''laptop'', tag = ''LP-001'',
                     serialNumber = None, cost = ''1200.00'', acquisitionDate = None,
                     asset_id = 1\<rparr>], next_id = 2\<rparr>
        (Some [[(''Name'', CStr ''Screen''), (''Type'', CStr ''monitor''), (''Tag'', CStr ''M-7''),
                (''Cost'', CStr ''300.00'')],
               [(''Name'', CStr ''Other''), (''Type'', CStr ''monitor''), (''Tag'', CStr ''M-7''),
                (''Cost'', CStr ''310.00'')]])
     = (\<lparr>assets = [\<lparr>name = ''Dell XPS'', type = ''laptop'', tag = ''LP-001'',
                     serialNumber = None, cost = ''1200.00'', acquisitionDate = None,
                     asset_id = 1\<rparr>], next_id = 4\<rparr>,
        Response 500 (Message ''Failed to import assets from Excel file''))
   \<and> tags_unique \<lparr>assets = [\<lparr>name = ''Dell XPS'', type = ''laptop'', tag = ''LP-001'',
                     serialNumber = None, cost = ''1200.00'', acquisitionDate = None,
                     asset_id = 1\<rparr>], next_id = 4\<rparr>"
proof -
  let ?a = "\<lparr>name = ''Dell XPS'', type = ''laptop'', tag = ''LP-001'',
             serialNumber = None, cost = ''1200.00'', acquisitionDate = None, asset_id = 1\<rparr>"
  let ?d = "\<lparr>assets = [?a], next_id = 2\<rparr>"
  let ?E = "\<lparr>text_ok = no_nul, decimal_in = Stored, date_in = Some\<rparr>"
  let ?up = "Some [[(''Name'', CStr ''Screen''), (''Type'', CStr ''monitor''), (''Tag'', CStr ''M-7''),
                (''Cost'', CStr ''300.00'')],
               [(''Name'', CStr ''Other''), (''Type'', CStr ''monitor''), (''Tag'', CStr ''M-7''),
                (''Cost'', CStr ''310.00'')]]"
  have p: "pk_ok ?d" by (simp add: pk_ok_def)
  have t: "tags_unique ?d" by (simp add: tags_unique_def)
  have r: "importRoute ?E ?d ?up
      = (\<lparr>assets = [?a], next_id = 4\<rparr>,
         Response 500 (Message ''Failed to import assets from Excel file''))"
    by (simp add: importRoute_def import_eval store_eval)
  have "tags_unique (fst (importRoute ?E ?d ?up))"
    using tag_uniqueness_invariant [OF p t, where E = ?E and upload = ?up] by blast
  then have "tags_unique \<lparr>assets = [?a], next_id = 4\<rparr>"
    unfolding r by simp
  with p t r show ?thesis by blast
qed

section \<open>Create and update\<close>

lemma getAsset_Some:
  "getAsset d i = Inr (Some a) \<longleftrightarrow> int4_ok i \<and> find (\<lambda>a. asset_id a = i) (assets d) = Some a"
  by (simp add: getAsset_def)




lemma updateAsset_found:
  assumes "\<not> no_values p" and "coerce_patch E p = Some q" and "pk_ok d"
    and "getAsset d i = Inr (Some a)"
    and "\<forall>t. tag_opt p = Some t \<longrightarrow> (\<forall>b \<in> set (assets d). asset_id b \<noteq> i \<longrightarrow> tag b \<noteq> t)"
  shows "updateAsset E d i p =
        (d\<lparr>assets := filter (\<lambda>b. asset_id b \<noteq> i) (assets d) @ [apply_patch q a]\<rparr>,
         Inr (Some (apply_patch q a)))"
proof -
  have f: "find (\<lambda>a. asset_id a = i) (assets d) = Some a" and r: "int4_ok i"
    using assms(4) by (simp_all add: getAsset_Some)
  have one: "filter (\<lambda>b. asset_id b = i) (assets d) = [a]"
    using assms(3) f by (intro filter_id_single) (simp_all add: pk_ok_def)
  have same: "tag_opt q = tag_opt p" "patch_bind_ok E p"
    using coerce_patch_same [OF assms(2)] by simp_all
  have free: "\<not> (case tag_opt q of None \<Rightarrow> False
                  | Some t \<Rightarrow> (\<exists>b \<in> set (assets d). asset_id b \<noteq> i \<and> tag b = t))"
    using assms(5) same(1) by (auto split: option.splits)
  show ?thesis
    using assms(1,2) r same(2) f free one by (simp add: updateAsset_def)
qed







lemma coerce_patch_cost:
  "coerce_patch E p = Some q \<Longrightarrow>
     (case cost_opt p of
        None \<Rightarrow> cost_opt q = None
      | Some c \<Rightarrow> (\<exists>c'. decimal_in E c = Stored c' \<and> cost_opt q = Some c'))"
  by (cases "cost_opt p"; cases "acquisitionDate_opt p")
     (auto simp: coerce_patch_def split: option.splits if_splits decimal_result.splits)

lemma coerce_patch_date:
  "coerce_patch E p = Some q \<Longrightarrow>
     (case acquisitionDate_opt p of
        None \<Rightarrow> acquisitionDate_opt q = None
      | Some None \<Rightarrow> acquisitionDate_opt q = Some None
      | Some (Some s) \<Rightarrow> (\<exists>s'. date_in E s = Some s' \<and> acquisitionDate_opt q = Some (Some s')))"
  by (cases "cost_opt p"; cases "acquisitionDate_opt p")
     (auto simp: coerce_patch_def split: option.splits if_splits decimal_result.splits)

text \<open>
  C9, as the claim states it, fails: the cost of the updated asset is the given value
  in the form the \<open>decimal(10,2)\<close> column stores it, which rounds to two decimals, and a
  cost that is not a number updates nothing. The engine of the example reads the
  decimal texts of its table, \<open>150.005\<close> as \<open>150.01\<close>; it takes no other text for a number.
\<close>

theorem update_stores_cost_rounded_or_refuses:
  "updateAsset
     \<lparr>text_ok = no_nul,
      decimal_in = case_option Malformed Stored
                     \<circ> map_of [(''150.005'', ''150.01''), (''150.00'', ''150.00'')],
      date_in = Some\<rparr>
     \<lparr>assets = [\<lparr>name = ''Dell XPS'', type = ''laptop'', tag = ''LP-001'',
                  serialNumber = None, cost = ''1200.00'', acquisitionDate = None,
                  asset_id = 1\<rparr>], next_id = 2\<rparr>
     1
     \<lparr>name_opt = None, type_opt = None, tag_opt = None, serialNumber_opt = None,
      cost_opt = Some ''150.005'', acquisitionDate_opt = None\<rparr>
   = (\<lparr>assets = [\<lparr>name = ''Dell XPS'', type = ''laptop'', tag = ''LP-001'',
                  serialNumber = None, cost = ''150.01'', acquisitionDate = None,
                  asset_id = 1\<rparr>], next_id = 2\<rparr>,
      Inr (Some \<lparr>name = ''Dell XPS'', type = ''laptop'', tag = ''LP-001'',
                  serialNumber = None, cost = ''150.01'', acquisitionDate = None,
                  asset_id = 1\<rparr>))
   \<and> updateAsset
     \<lparr>text_ok = no_nul,
      decimal_in = case_option Malformed Stored
                     \<circ> map_of [(''150.005'', ''150.01''), (''150.00'', ''150.00'')],
      date_in = Some\<rparr>
     \<lparr>assets = [\<lparr>name = ''Dell XPS'', type = ''laptop'', tag = ''LP-001'',
                  serialNumber = None, cost = ''1200.00'', acquisitionDate = None,
                  asset_id = 1\<rparr>], next_id = 2\<rparr>
     1
     \<lparr>name_opt = None, type_opt = None, tag_opt = None, serialNumber_opt = None,
      cost_opt = Some ''abc'', acquisitionDate_opt = None\<rparr>
   = (\<lparr>assets = [\<lparr>name = ''Dell XPS'', type = ''laptop'', tag = ''LP-001'',
                  serialNumber = None, cost = ''1200.00'', acquisitionDate = None,
                  asset_id = 1\<rparr>], next_id = 2\<rparr>,
      Inl InvalidInput)"
  by (simp add: updateAsset_def no_values_def int4_ok_def patch_bind_ok_def patch_texts_ok_def
        coerce_patch_def apply_patch_def)

text \<open>
  C9, amended: for an asset that exists, \<open>updateAsset\<close> with a patch that holds only a
  \<open>cost\<close> that the decimal column takes returns the asset with the cost replaced by the
  stored form of the given value (the given value itself when it is written as the
  column stores it) and every other field, the id included, as before; the returned
  asset is the row the table holds afterwards, and no other row changes. In general,
  for a patch that sets at least one key, whose values the column types take and whose
  tag no other row holds, the row returned and stored is the old row with exactly the
  keys present in the patch overwritten, cost and date in their stored form.
\<close>

theorem update_overwrites_present_keys:
  assumes "pk_ok d" and "getAsset d i = Inr (Some a)"
  shows "(\<forall>c c'. decimal_in E c = Stored c' \<longrightarrow>
            updateAsset E d i \<lparr>name_opt = None, type_opt = None, tag_opt = None,
                               serialNumber_opt = None, cost_opt = Some c,
                               acquisitionDate_opt = None\<rparr>
              = (d\<lparr>assets := filter (\<lambda>b. asset_id b \<noteq> i) (assets d) @ [a\<lparr>cost := c'\<rparr>]\<rparr>,
                 Inr (Some (a\<lparr>cost := c'\<rparr>))))
       \<and> (\<forall>p q. \<not> no_values p \<and> coerce_patch E p = Some q
              \<and> (\<forall>t. tag_opt p = Some t \<longrightarrow> (\<forall>b \<in> set (assets d). asset_id b \<noteq> i \<longrightarrow> tag b \<noteq> t))
            \<longrightarrow> (\<exists>a'. updateAsset E d i p
                         = (d\<lparr>assets := filter (\<lambda>b. asset_id b \<noteq> i) (assets d) @ [a']\<rparr>,
                            Inr (Some a'))
                  \<and> asset_id a' = asset_id a
                  \<and> name a' = (case name_opt p of None \<Rightarrow> name a | Some s \<Rightarrow> s)
                  \<and> type a' = (case type_opt p of None \<Rightarrow> type a | Some s \<Rightarrow> s)
                  \<and> tag a' = (case tag_opt p of None \<Rightarrow> tag a | Some s \<Rightarrow> s)
                  \<and> serialNumber a'
                      = (case serialNumber_opt p of None \<Rightarrow> serialNumber a | Some s \<Rightarrow> s)
                  \<and> (case cost_opt p of
                        None \<Rightarrow> cost a' = cost a
                      | Some c \<Rightarrow> decimal_in E c = Stored (cost a'))
                  \<and> (case acquisitionDate_opt p of
                        None \<Rightarrow> acquisitionDate a' = acquisitionDate a
                      | Some None \<Rightarrow> acquisitionDate a' = None
                      | Some (Some s) \<Rightarrow>
                          (\<exists>s'. date_in E s = Some s' \<and> acquisitionDate a' = Some s'))))"
proof (intro conjI allI impI)
  fix c c'
  assume dc: "decimal_in E c = Stored c'"
  let ?p = "\<lparr>name_opt = None, type_opt = None, tag_opt = None, serialNumber_opt = None,
             cost_opt = Some c, acquisitionDate_opt = None\<rparr>"
  let ?q = "\<lparr>name_opt = None, type_opt = None, tag_opt = None, serialNumber_opt = None,
             cost_opt = Some c', acquisitionDate_opt = None\<rparr>"
  have n: "\<not> no_values ?p" by (simp add: no_values_def)
  have q: "coerce_patch E ?p = Some ?q"
    using dc by (simp add: coerce_patch_def patch_texts_ok_def)
  have ap: "apply_patch ?q a = a\<lparr>cost := c'\<rparr>"
    by (simp add: apply_patch_def)
  have "updateAsset E d i ?p =
        (d\<lparr>assets := filter (\<lambda>b. asset_id b \<noteq> i) (assets d) @ [apply_patch ?q a]\<rparr>,
         Inr (Some (apply_patch ?q a)))"
    using n q assms by (rule updateAsset_found) simp
  then show "updateAsset E d i ?p
              = (d\<lparr>assets := filter (\<lambda>b. asset_id b \<noteq> i) (assets d) @ [a\<lparr>cost := c'\<rparr>]\<rparr>,
                 Inr (Some (a\<lparr>cost := c'\<rparr>)))"
    unfolding ap .
next
  fix p q
  assume h: "\<not> no_values p \<and> coerce_patch E p = Some q
             \<and> (\<forall>t. tag_opt p = Some t \<longrightarrow> (\<forall>b \<in> set (assets d). asset_id b \<noteq> i \<longrightarrow> tag b \<noteq> t))"
  let ?a' = "apply_patch q a"
  have u: "updateAsset E d i p
           = (d\<lparr>assets := filter (\<lambda>b. asset_id b \<noteq> i) (assets d) @ [?a']\<rparr>, Inr (Some ?a'))"
    using h assms by (intro updateAsset_found) simp_all
  have same: "name_opt q = name_opt p" "type_opt q = type_opt p" "tag_opt q = tag_opt p"
      "serialNumber_opt q = serialNumber_opt p"
    using h coerce_patch_same [of E p q] by simp_all
  have texts: "asset_id ?a' = asset_id a
      \<and> name ?a' = (case name_opt p of None \<Rightarrow> name a | Some s \<Rightarrow> s)
      \<and> type ?a' = (case type_opt p of None \<Rightarrow> type a | Some s \<Rightarrow> s)
      \<and> tag ?a' = (case tag_opt p of None \<Rightarrow> tag a | Some s \<Rightarrow> s)
      \<and> serialNumber ?a' = (case serialNumber_opt p of None \<Rightarrow> serialNumber a | Some s \<Rightarrow> s)"
    by (simp add: apply_patch_def same)
  have co: "(case cost_opt p of
               None \<Rightarrow> cost ?a' = cost a
             | Some c \<Rightarrow> decimal_in E c = Stored (cost ?a'))"
    using h coerce_patch_cost [of E p q]
    by (auto simp: apply_patch_def split: option.splits)
  have da: "(case acquisitionDate_opt p of
               None \<Rightarrow> acquisitionDate ?a' = acquisitionDate a
             | Some None \<Rightarrow> acquisitionDate ?a' = None
             | Some (Some s) \<Rightarrow>
                 (\<exists>s'. date_in E s = Some s' \<and> acquisitionDate ?a' = Some s'))"
    using h coerce_patch_date [of E p q]
    by (auto simp: apply_patch_def split: option.splits)
  show "\<exists>a'. updateAsset E d i p
                         = (d\<lparr>assets := filter (\<lambda>b. asset_id b \<noteq> i) (assets d) @ [a']\<rparr>,
                            Inr (Some a'))
                  \<and> asset_id a' = asset_id a
                  \<and> name a' = (case name_opt p of None \<Rightarrow> name a | Some s \<Rightarrow> s)
                  \<and> type a' = (case type_opt p of None \<Rightarrow> type a | Some s \<Rightarrow> s)
                  \<and> tag a' = (case tag_opt p of None \<Rightarrow> tag a | Some s \<Rightarrow> s)
                  \<and> serialNumber a'
                      = (case serialNumber_opt p of None \<Rightarrow> serialNumber a | Some s \<Rightarrow> s)
                  \<and> (case cost_opt p of
                        None \<Rightarrow> cost a' = cost a
                      | Some c \<Rightarrow> decimal_in E c = Stored (cost a'))
                  \<and> (case acquisitionDate_opt p of
                        None \<Rightarrow> acquisitionDate a' = acquisitionDate a
                      | Some None \<Rightarrow> acquisitionDate a' = None
                      | Some (Some s) \<Rightarrow>
                          (\<exists>s'. date_in E s = Some s' \<and> acquisitionDate a' = Some s'))"
    using u texts co da by (intro exI [of _ ?a']) (simp only: simp_thms)
qed

theorem update_overwrites_present_keys_witness:
  "updateAsset
     \<lparr>text_ok = no_nul,
      decimal_in = case_option Malformed Stored
                     \<circ> map_of [(''150.005'', ''150.01''), (''150.00'', ''150.00'')],
      date_in = Some\<rparr>
     \<lparr>assets = [\<lparr>name = ''Dell XPS'', type = ''laptop'', tag = ''LP-001'',
                  serialNumber = Some ''SN-1'', cost = ''1200.00'',
                  acquisitionDate = Some ''2025-06-25'', asset_id = 1\<rparr>,
                 \<lparr>name = ''Screen'', type = ''monitor'', tag = ''M-7'',
                  serialNumber = None, cost = ''300.00'', acquisitionDate = None,
                  asset_id = 2\<rparr>], next_id = 3\<rparr>
     1
     \<lparr>name_opt = None, type_opt = None, tag_opt = None, serialNumber_opt = None,
      cost_opt = Some ''150.005'', acquisitionDate_opt = None\<rparr>
   = (\<lparr>assets = [\<lparr>name = ''Screen'', type = ''monitor'', tag = ''M-7'',
                  serialNumber = None, cost = ''300.00'', acquisitionDate = None,
                  asset_id = 2\<rparr>,
                 \<lparr>name = ''Dell XPS'', type = ''laptop'', tag = ''LP-001'',
                  serialNumber = Some ''SN-1'', cost = ''150.01'',
                  acquisitionDate = Some ''2025-06-25'', asset_id = 1\<rparr>], next_id = 3\<rparr>,
      Inr (Some \<lparr>name = ''Dell XPS'', type = ''laptop'', tag = ''LP-001'',
                  serialNumber = Some ''SN-1'', cost = ''150.01'',
                  acquisitionDate = Some ''2025-06-25'', asset_id = 1\<rparr>))"
proof -
  let ?a1 = "\<lparr>name = ''Dell XPS'', type = ''laptop'', tag = ''LP-001'',
              serialNumber = Some ''SN-1'', cost = ''1200.00'',
              acquisitionDate = Some ''2025-06-25'', asset_id = 1\<rparr>"
  let ?a2 = "\<lparr>name = ''Screen'', type = ''monitor'', tag = ''M-7'',
              serialNumber = None, cost = ''300.00'', acquisitionDate = None, asset_id = 2\<rparr>"
  let ?d = "\<lparr>assets = [?a1, ?a2], next_id = 3\<rparr>"
  let ?E = "\<lparr>text_ok = no_nul,
      decimal_in = case_option Malformed Stored
                     \<circ> map_of [(''150.005'', ''150.01''), (''150.00'', ''150.00'')],
      date_in = Some\<rparr>"
  have k: "pk_ok ?d" by (simp add: pk_ok_def)
  have g: "getAsset ?d 1 = Inr (Some ?a1)" by (simp add: getAsset_def int4_ok_def)
  have e: "decimal_in ?E ''150.005'' = Stored ''150.01''" by simp
  have "updateAsset ?E ?d 1 \<lparr>name_opt = None, type_opt = None, tag_opt = None,
                               serialNumber_opt = None, cost_opt = Some ''150.005'',
                               acquisitionDate_opt = None\<rparr>
        = (?d\<lparr>assets := filter (\<lambda>b. asset_id b \<noteq> 1) (assets ?d) @ [?a1\<lparr>cost := ''150.01''\<rparr>]\<rparr>,
           Inr (Some (?a1\<lparr>cost := ''150.01''\<rparr>)))"
    using update_overwrites_present_keys [OF k g, of ?E] e by blast
  then show ?thesis by simp
qed

section \<open>The import route\<close>







section \<open>The export route\<close>

lemma lower_export: "map lower_char ''export'' = ''export''"
  by (simp add: lower_char_def)

lemma matches_export_nonempty:
  "map lower_char s = map lower_char ''export'' \<Longrightarrow> s \<noteq> []"
  by (auto simp: lower_export)

lemma export_route_shadowed:
  assumes "route_matches v path (GET, [Lit ''api'', Lit ''assets'', Lit ''export''], ExportAssets)"
  shows "route_matches v path (GET, [Lit ''api'', Lit ''assets'', Param], GetAsset)"
proof -
  from assms obtain a b c where p: "path = [a, b, c]"
    and m: "piece_matches (Lit ''api'') a" "piece_matches (Lit ''assets'') b"
      "piece_matches (Lit ''export'') c" and v: "v = GET"
    by (auto simp: route_matches_def list_all2_Cons1)
  from m(3) have "c \<noteq> []"
    by (intro matches_export_nonempty) simp
  with p m(1,2) v show ?thesis
    by (simp add: route_matches_def)
qed

text \<open>
  C8: the round trip starts with an export, and no request reaches the export
  handler. \<open>GET /api/assets/export\<close> matches \<open>/api/assets/:id\<close>, which is registered before
  \<open>/api/assets/export\<close>; the handler of \<open>/api/assets/:id\<close> reads the segment \<open>export\<close> with
  \<open>parseInt\<close>, which gives no number, and answers 400 \<open>Invalid asset ID\<close> whatever the
  store holds. No workbook is produced.
\<close>

theorem export_request_is_answered_by_the_id_route:
  "dispatch GET [''api'', ''assets'', ''export''] = Some GetAsset
   \<and> getRoute d None = Response 400 (Message ''Invalid asset ID'')
   \<and> dispatch v path \<noteq> Some ExportAssets"
proof (intro conjI)
  show "dispatch GET [''api'', ''assets'', ''export''] = Some GetAsset"
    by (simp add: dispatch_def registered_def route_matches_def lower_char_def)
next
  show "getRoute d None = Response 400 (Message ''Invalid asset ID'')"
    by (simp add: getRoute_def)
next
  show "dispatch v path \<noteq> Some ExportAssets"
  proof
    assume a: "dispatch v path = Some ExportAssets"
    let ?e = "(GET, [Lit ''api'', Lit ''assets'', Lit ''export''], ExportAssets)"
    let ?g = "(GET, [Lit ''api'', Lit ''assets'', Param], GetAsset)"
    from a have "\<not> route_matches v path ?g" and "route_matches v path ?e"
      by (auto simp: dispatch_def registered_def split: if_splits)
    with export_route_shadowed [of v path] show False by simp
  qed
qed

end
